theory Spec2Isabelle
  imports Main "HOL-Library.Sublist"
begin

section \<open>The integration-test runner: supervised runs with live output matching\<close>

text \<open>
  The Go package \<open>shared\<close> starts \<open>cifuzz run\<close>, reads its standard output and its
  standard error line by line in two goroutines, and hands every line to one
  \<open>outputChecker\<close> behind a mutex. The assertions are those of testify's \<open>require\<close>:
  a failed assertion records the failure on the \<open>testing.T\<close> and ends the goroutine it
  runs in (\<open>t.FailNow\<close>, that is \<open>runtime.Goexit\<close>); deferred calls still run, so the
  mutex is released and the other goroutines go on.

  A compiled regular expression (\<open>*regexp.Regexp\<close>, from \<open>regexp.MustCompile\<close>) is a
  value of the type variable \<open>'p\<close>; \<open>MatchString\<close> belongs to Go's standard library and
  is the parameter \<open>ms\<close> of every function that matches. An error value is of type \<open>'e\<close>.

  The model follows \<open>Run\<close> in what it asserts and in what it does to the checker. How
  the command line and the environment are put together, the copy of both streams to
  the streams of the test, and the handler that \<open>TerminateOnSignal\<close> installs are not
  part of it.
\<close>

subsection \<open>Failed assertions\<close>

datatype ('p, 'e) failure =
    SeenUnexpected 'p string
      \<comment> \<open>\<open>require.FailNowf(t, "Unexpected output", "Seen unexpected output %v in line: %s", ...)\<close>\<close>
  | NoErrorFailed 'e
      \<comment> \<open>\<open>require.NoError(t, err)\<close> with \<open>err != nil\<close>\<close>
  | ErrorExpected
      \<comment> \<open>\<open>require.Error(t, err)\<close> with \<open>err == nil\<close>\<close>
  | DidNotSee "'p list"
      \<comment> \<open>\<open>require.True(t, false, "Did not see %q in fuzzer output", expectedOutputs)\<close>\<close>

definition requireNoError :: "'e option \<Rightarrow> ('p, 'e) failure option" where
  "requireNoError err = (case err of None \<Rightarrow> None | Some e \<Rightarrow> Some (NoErrorFailed e))"

definition requireError :: "'e option \<Rightarrow> ('p, 'e) failure option" where
  "requireError err = (case err of None \<Rightarrow> Some ErrorExpected | Some e \<Rightarrow> None)"

definition requireTrue :: "bool \<Rightarrow> ('p, 'e) failure \<Rightarrow> ('p, 'e) failure option" where
  "requireTrue b msg = (if b then None else Some msg)"

subsection \<open>The output checker\<close>

text \<open>
  The struct \<open>outputChecker\<close>. The mutex is not a field of the model: a call of
  \<open>checkOutput\<close> holds it from its first to its last statement, so calls are atomic and
  a run is a sequence of calls. \<open>termationFunc\<close> is a closure with an effect on the
  world \<open>'w\<close> outside the checker; it may fail an assertion of its own.
\<close>

record ('p, 'e, 'w) outputChecker =
  lenExpectedOutputs :: nat
  expectedOutputs :: "'p list"
  unexpectedOutput :: "'p option"
  terminateAfterExpectedOutput :: bool
  termationFunc :: "'w \<Rightarrow> ('p, 'e) failure option \<times> 'w"
  hasSeenExpectedOutputs :: bool
  hasCalledTerminationFunc :: bool

text \<open>The first statement of \<open>checkOutput\<close>: the test on the unexpected output.\<close>

definition checkUnexpected ::
  "('p \<Rightarrow> string \<Rightarrow> bool) \<Rightarrow> ('p, 'e, 'w) outputChecker \<Rightarrow> string \<Rightarrow> ('p, 'e) failure option" where
  "checkUnexpected ms c line =
     (case unexpectedOutput c of
        None \<Rightarrow> None
      | Some u \<Rightarrow> if ms u line then Some (SeenUnexpected u line) else None)"

text \<open>
  The loop \<open>for _, expectedOutput := range c.expectedOutputs\<close>, which appends every
  pattern that does not match the line to \<open>remainingExpectedOutputs\<close> (the accumulator).
\<close>

fun remainingLoop :: "('p \<Rightarrow> string \<Rightarrow> bool) \<Rightarrow> string \<Rightarrow> 'p list \<Rightarrow> 'p list \<Rightarrow> 'p list" where
  "remainingLoop ms line remaining [] = remaining"
| "remainingLoop ms line remaining (expectedOutput # rest) =
     (if \<not> ms expectedOutput line
      then remainingLoop ms line (remaining @ [expectedOutput]) rest
      else remainingLoop ms line remaining rest)"

text \<open>
  \<open>checkOutput\<close> returns the failure that ended the call, if any, the checker and the
  world as the call leaves them.
\<close>

definition checkOutput ::
  "('p \<Rightarrow> string \<Rightarrow> bool) \<Rightarrow> ('p, 'e, 'w) outputChecker \<Rightarrow> 'w \<Rightarrow> string \<Rightarrow>
     ('p, 'e) failure option \<times> ('p, 'e, 'w) outputChecker \<times> 'w" where
  "checkOutput ms c w line =
     (case checkUnexpected ms c line of
        Some f \<Rightarrow> (Some f, c, w)
      | None \<Rightarrow>
          (let remainingExpectedOutputs = remainingLoop ms line [] (expectedOutputs c);
               c1 = c\<lparr>expectedOutputs := remainingExpectedOutputs\<rparr>
           in if length remainingExpectedOutputs = 0
              then (let c2 = c1\<lparr>hasSeenExpectedOutputs := True\<rparr>
                    in if terminateAfterExpectedOutput c2
                       then (let c3 = c2\<lparr>hasCalledTerminationFunc := True\<rparr>;
                                 r = termationFunc c3 w
                             in (fst r, c3, snd r))
                       else (None, c2, w))
              else (None, c1, w)))"

subsection \<open>The two stream consumers\<close>

datatype stream = Stdout | Stderr

text \<open>
  What a run has reached: the checker, the world, the failures recorded on the
  \<open>testing.T\<close> so far, and which of the two consumer goroutines still runs.
\<close>

record ('p, 'e, 'w) run_state =
  checker :: "('p, 'e, 'w) outputChecker"
  world :: 'w
  failures :: "('p, 'e) failure list"
  alive :: "stream \<Rightarrow> bool"

text \<open>
  One turn of the loop \<open>for scanner.Scan() { outputChecker.checkOutput(t, scanner.Text()) }\<close>
  of the consumer of stream \<open>k\<close>. A consumer whose call of \<open>checkOutput\<close> failed has
  ended: the lines of its stream that follow are never read.
\<close>

definition deliver ::
  "('p \<Rightarrow> string \<Rightarrow> bool) \<Rightarrow> stream \<Rightarrow> string \<Rightarrow> ('p, 'e, 'w) run_state \<Rightarrow>
     ('p, 'e, 'w) run_state" where
  "deliver ms k line s =
     (if alive s k
      then (case checkOutput ms (checker s) (world s) line of
              (None, c', w') \<Rightarrow> s\<lparr>checker := c', world := w'\<rparr>
            | (Some f, c', w') \<Rightarrow>
                s\<lparr>checker := c', world := w', failures := failures s @ [f],
                   alive := (alive s)(k := False)\<rparr>)
      else s)"

text \<open>
  The scanned lines arrive tagged with their stream, in the order in which the two
  goroutines get hold of the mutex.
\<close>

fun consume ::
  "('p \<Rightarrow> string \<Rightarrow> bool) \<Rightarrow> (stream \<times> string) list \<Rightarrow> ('p, 'e, 'w) run_state \<Rightarrow>
     ('p, 'e, 'w) run_state" where
  "consume ms [] s = s"
| "consume ms ((k, line) # rest) s = consume ms rest (deliver ms k line s)"

text \<open>
  After the last line a consumer that still runs closes its pipe and requires that
  closing gave no error. The two consumers close in one of the possible orders, the
  standard output first.
\<close>

definition closePipe ::
  "stream \<Rightarrow> 'e option \<Rightarrow> ('p, 'e, 'w) run_state \<Rightarrow> ('p, 'e, 'w) run_state" where
  "closePipe k err s =
     (if alive s k
      then (case requireNoError err of
              None \<Rightarrow> s
            | Some f \<Rightarrow> s\<lparr>failures := failures s @ [f], alive := (alive s)(k := False)\<rparr>)
      else s)"

subsection \<open>Run\<close>

record 'p RunOptions =
  FuzzTest :: string
  WorkDir :: string
  Env :: "string list"
  Command :: "string list option"
  Args :: "string list"
  ExpectedOutputs :: "'p list"
  UnexpectedOutput :: "'p option"
  TerminateAfterExpectedOutput :: bool
  ExpectError :: bool

text \<open>
  The \<open>select\<close> of \<open>Run\<close>: either \<open>cmd.Wait\<close> has delivered its result on \<open>waitErrCh\<close>,
  or the context of the run is done, with the value of \<open>runCtx.Err()\<close>.
\<close>

datatype 'e completion = WaitReturned "'e option" | ContextDone "'e option"

text \<open>
  What the subprocess and the operating system do in one run, as far as \<open>Run\<close>
  observes it: the results of the fallible steps before the start, the lines scanned,
  the results of closing the pipes, the result of the n-th call of
  \<open>cmd.TerminateProcessGroup\<close>, and the branch the \<open>select\<close> takes.
\<close>

record 'e subprocess =
  setenvInteractiveErr :: "'e option"
  setenvNotificationsErr :: "'e option"
  envCopyErr :: "'e option"
  stdoutPipeErr :: "'e option"
  stderrPipeErr :: "'e option"
  startErr :: "'e option"
  scanned :: "(stream \<times> string) list"
  stdoutCloseErr :: "'e option"
  stderrCloseErr :: "'e option"
  terminateProcessGroup :: "nat \<Rightarrow> 'e option"
  selected :: "'e completion"

text \<open>
  The closure \<open>termationFunc\<close> that \<open>Run\<close> builds: it calls
  \<open>cmd.TerminateProcessGroup\<close> and requires that the call gave no error. The world is
  the number of calls of \<open>cmd.TerminateProcessGroup\<close> made so far.
\<close>

definition terminate :: "(nat \<Rightarrow> 'e option) \<Rightarrow> nat \<Rightarrow> ('p, 'e) failure option \<times> nat" where
  "terminate tpg calls = (requireNoError (tpg calls), Suc calls)"

definition newOutputChecker ::
  "'p RunOptions \<Rightarrow> (nat \<Rightarrow> 'e option) \<Rightarrow> ('p, 'e, nat) outputChecker" where
  "newOutputChecker opts tpg =
     \<lparr>lenExpectedOutputs = length (ExpectedOutputs opts),
      expectedOutputs = ExpectedOutputs opts,
      unexpectedOutput = UnexpectedOutput opts,
      terminateAfterExpectedOutput = TerminateAfterExpectedOutput opts,
      termationFunc = terminate tpg,
      hasSeenExpectedOutputs = False,
      hasCalledTerminationFunc = False\<rparr>"

definition started :: "'p RunOptions \<Rightarrow> (nat \<Rightarrow> 'e option) \<Rightarrow> ('p, 'e, nat) run_state" where
  "started opts tpg =
     \<lparr>checker = newOutputChecker opts tpg, world = 0, failures = [], alive = (\<lambda>k. True)\<rparr>"

text \<open>
  The steps of \<open>Run\<close> up to \<open>cmd.Start\<close>, each under \<open>require.NoError\<close>: the
  first error ends \<open>Run\<close>.
\<close>

primrec requireAll ::"'e option list \<Rightarrow> ('p, 'e) failure option" where
  "requireAll [] = None"
| "requireAll (err # errs) =
     (case requireNoError err of Some f \<Rightarrow> Some f | None \<Rightarrow> requireAll errs)"

definition startup :: "'e subprocess \<Rightarrow> ('p, 'e) failure option" where
  "startup proc =
     requireAll [setenvInteractiveErr proc, setenvNotificationsErr proc, envCopyErr proc,
                 stdoutPipeErr proc, stderrPipeErr proc, startErr proc]"

text \<open>The state in which the lines scanned so far leave the run.\<close>

definition scanning ::
  "('p \<Rightarrow> string \<Rightarrow> bool) \<Rightarrow> 'p RunOptions \<Rightarrow> 'e subprocess \<Rightarrow> ('p, 'e, nat) run_state" where
  "scanning ms opts proc =
     consume ms (scanned proc) (started opts (terminateProcessGroup proc))"

text \<open>
  The state after \<open>routines.Wait()\<close>: both consumers have read their stream to its end
  and have closed their pipe, or have ended in a failed assertion.
\<close>

definition joined ::
  "('p \<Rightarrow> string \<Rightarrow> bool) \<Rightarrow> 'p RunOptions \<Rightarrow> 'e subprocess \<Rightarrow> ('p, 'e, nat) run_state" where
  "joined ms opts proc =
     closePipe Stderr (stderrCloseErr proc)
       (closePipe Stdout (stdoutCloseErr proc) (scanning ms opts proc))"

text \<open>The last statement of \<open>Run\<close>: \<open>require.True(t, outputChecker.hasSeenExpectedOutputs, ...)\<close>.\<close>

definition finalAssertion :: "('p, 'e, 'w) outputChecker \<Rightarrow> ('p, 'e) failure option" where
  "finalAssertion c = requireTrue (hasSeenExpectedOutputs c) (DidNotSee (expectedOutputs c))"

definition finish :: "('p, 'e, 'w) run_state \<Rightarrow> ('p, 'e) failure list" where
  "finish s = (case finalAssertion (checker s) of None \<Rightarrow> failures s | Some f \<Rightarrow> failures s @ [f])"

text \<open>
  \<open>Run\<close> returns nothing; its result is the list of failures recorded on the
  \<open>testing.T\<close>, empty when the test passes. \<open>isTerminatedExitErr\<close> is
  \<open>executil.IsTerminatedExitErr\<close>, a parameter. Both functions given to the errgroup
  return \<open>nil\<close>, so \<open>routines.Wait()\<close> returns \<open>nil\<close> and the \<open>require.NoError\<close> on it
  passes.
\<close>

definition Run ::
  "('p \<Rightarrow> string \<Rightarrow> bool) \<Rightarrow> ('e option \<Rightarrow> bool) \<Rightarrow> 'p RunOptions \<Rightarrow> 'e subprocess \<Rightarrow>
     ('p, 'e) failure list" where
  "Run ms isTerminatedExitErr opts proc =
     (case startup proc of
        Some f \<Rightarrow> [f]
      | None \<Rightarrow>
          (case selected proc of
             WaitReturned waitErr \<Rightarrow>
               (let s = joined ms opts proc
                in if hasCalledTerminationFunc (checker s) \<and> isTerminatedExitErr waitErr
                   then failures s
                   else (case (if ExpectError opts then requireError waitErr
                               else requireNoError waitErr) of
                           Some f \<Rightarrow> failures s @ [f]
                         | None \<Rightarrow> finish s))
           | ContextDone ctxErr \<Rightarrow>
               (let s = scanning ms opts proc
                in case requireNoError ctxErr of
                     Some f \<Rightarrow> failures s @ [f]
                   | None \<Rightarrow> finish s)))"

text \<open>
  A stand-in for \<open>MatchString\<close> on a pattern without metacharacters, which matches a
  line if and only if the pattern occurs in it.
\<close>

fun hasPrefix :: "string \<Rightarrow> string \<Rightarrow> bool" where
  "hasPrefix s [] = True"
| "hasPrefix [] (p # ps) = False"
| "hasPrefix (c # cs) (p # ps) = (c = p \<and> hasPrefix cs ps)"

fun matchLiteral :: "string \<Rightarrow> string \<Rightarrow> bool" where
  "matchLiteral p [] = (p = [])"
| "matchLiteral p (c # cs) = (hasPrefix (c # cs) p \<or> matchLiteral p cs)"

section \<open>The Gradle build adapter\<close>

text \<open>
  Package \<open>gradle\<close> asks the Gradle build of a project, through three tasks of the
  cifuzz plugin, for the plugin version, the test classpath and the build directory.
  Text is a \<open>string\<close>; the characters of the marker lines are ASCII.
\<close>

subsection \<open>Errors, panics and results\<close>

datatype 'x error =
    External 'x
      \<comment> \<open>an error value made outside this package\<close>
  | New string
      \<comment> \<open>\<open>errors.New\<close>\<close>
  | WithStack "'x error"
      \<comment> \<open>\<open>errors.WithStack\<close> of an error that is not \<open>nil\<close>\<close>

datatype panic = IndexOutOfRange nat nat
  \<comment> \<open>Go's run-time error "index out of range [i] with length n"\<close>

text \<open>
  A Go function that returns \<open>(value, error)\<close> either returns a value with a \<open>nil\<close>
  error, or the zero value with an error, or it panics.
\<close>

datatype ('x, 'a) outcome = Ok 'a | Err "'x error" | Panic panic

record cmd =
  cmdPath :: string
  cmdArgs :: "string list"
  cmdDir :: string

text \<open>What a call does outside the process, in the order in which it does it.\<close>

datatype event =
    SearchFileBackwards string string
      \<comment> \<open>\<open>fileutil.SearchFileBackwards(projectDir, wrapper)\<close>\<close>
  | GradlePath
      \<comment> \<open>\<open>runfiles.Finder.GradlePath()\<close>\<close>
  | Output cmd
      \<comment> \<open>\<open>cmd.Output()\<close>: the command runs\<close>
  | Warn string
  | Print string
  | DebugCommand cmd
      \<comment> \<open>\<open>log.Debugf("Command: %s", cmd.String())\<close>\<close>
  | DebugVersion string
      \<comment> \<open>\<open>log.Debugf("Found gradle plugin version: %s", version)\<close>\<close>

text \<open>
  The functions of other packages that this package calls, and the two constants of
  the platform, are the fields of the environment.
\<close>

record 'x environment =
  windows :: bool
  pathListSeparator :: char
  searchFileBackwards :: "string \<Rightarrow> string \<Rightarrow> string \<times> 'x error option"
  isNotExist :: "'x error \<Rightarrow> bool"
  gradlePath :: "'x error + string"
  cmdOutput :: "cmd \<Rightarrow> 'x error + string"
  determineGradleBuildLanguage :: "string \<Rightarrow> 'x error + string"
  instructions :: "string \<Rightarrow> string"
  wrapSilentError :: "'x error \<Rightarrow> 'x error"
  wrapExecError :: "'x error \<Rightarrow> cmd \<Rightarrow> 'x error"
  jazzerSeedCorpus :: "string \<Rightarrow> string \<Rightarrow> string"
  jazzerGeneratedCorpus :: "string \<Rightarrow> string \<Rightarrow> string"

record ParallelOptions =
  Enabled :: bool
  NumJobs :: nat

record BuilderOptions =
  ProjectDir :: string
  Parallel :: ParallelOptions

record Result =
  Name :: string
  BuildDir :: string
  ResultProjectDir :: string
  GeneratedCorpus :: string
  SeedCorpus :: string
  RuntimeDeps :: "string list"

subsection \<open>Strings and the two marker expressions\<close>

definition newline :: char where
  "newline = CHR 0x0A"

text \<open>\<open>strings.Split\<close> with a separator of one character.\<close>

fun Split :: "string \<Rightarrow> char \<Rightarrow> string list" where
  "Split [] sep = [[]]"
| "Split (c # cs) sep =
     (if c = sep then [] # Split cs sep
      else (case Split cs sep of [] \<Rightarrow> [[c]] | w # ws \<Rightarrow> (c # w) # ws))"

text \<open>\<open>strings.TrimSpace\<close>, on the white space of ASCII.\<close>

definition isSpace :: "char \<Rightarrow> bool" where
  "isSpace c = (c \<in> {CHR 0x09, CHR 0x0A, CHR 0x0B, CHR 0x0C, CHR 0x0D, CHR '' ''})"

definition TrimSpace :: "string \<Rightarrow> string" where
  "TrimSpace s = rev (dropWhile isSpace (rev (dropWhile isSpace s)))"

definition TrimPrefix :: "string \<Rightarrow> string \<Rightarrow> string" where
  "TrimPrefix s p = (if hasPrefix s p then drop (length p) s else s)"

text \<open>
  Both expressions have the form \<open>(?m)^marker(?P<name>.*)$\<close>: in multi-line mode
  \<open>^\<close> holds at the start of a line and \<open>$\<close> at its end, a dot stands for any
  character but the newline, and \<open>.*\<close> takes the rest of the line. An expression is
  kept as its marker, in which the dot is the only metacharacter.
\<close>

definition classpathRegex :: string where
  "classpathRegex = ''cifuzz.test.classpath=''"

definition buildDirRegex :: string where
  "buildDirRegex = ''cifuzz.buildDir=''"

fun matchMarker :: "string \<Rightarrow> string \<Rightarrow> string option" where
  "matchMarker [] line = Some line"
| "matchMarker (p # ps) [] = None"
| "matchMarker (p # ps) (c # cs) =
     (if p = CHR ''.'' \<or> p = c then matchMarker ps cs else None)"

fun firstMarkerLine :: "string \<Rightarrow> string list \<Rightarrow> string list option" where
  "firstMarkerLine marker [] = None"
| "firstMarkerLine marker (l # ls) =
     (case matchMarker marker l of
        Some v \<Rightarrow> Some [l, v]
      | None \<Rightarrow> firstMarkerLine marker ls)"

text \<open>
  \<open>FindStringSubmatch\<close>: \<open>None\<close> is the \<open>nil\<close> slice of a text without a match;
  otherwise the leftmost match and its one group.
\<close>

definition FindStringSubmatch :: "string \<Rightarrow> string \<Rightarrow> string list option" where
  "FindStringSubmatch marker s = firstMarkerLine marker (Split s newline)"

text \<open>Indexing a slice, with the bounds check of Go; a \<open>nil\<close> slice has length 0.\<close>

definition index :: "string list option \<Rightarrow> nat \<Rightarrow> panic + string" where
  "index slice i =
     (let xs = (case slice of None \<Rightarrow> [] | Some ys \<Rightarrow> ys)
      in if i < length xs then Inr (xs ! i) else Inl (IndexOutOfRange i (length xs)))"

subsection \<open>Finding the Gradle command\<close>

definition FindGradleWrapper ::
  "'x environment \<Rightarrow> string \<Rightarrow> event list \<times> string \<times> 'x error option" where
  "FindGradleWrapper env projectDir =
     (let wrapper = (if windows env then ''gradlew.bat'' else ''gradlew'')
      in ([SearchFileBackwards projectDir wrapper], searchFileBackwards env projectDir wrapper))"

text \<open>
  \<open>GetGradleCommand\<close> gives up on an error of the search other than "not exist";
  it takes the wrapper if one was found, and the \<open>gradle\<close> of the runfiles otherwise.
\<close>

definition GetGradleCommand ::
  "'x environment \<Rightarrow> string \<Rightarrow> event list \<times> ('x error + string)" where
  "GetGradleCommand env projectDir =
     (case FindGradleWrapper env projectDir of
        (ev, wrapper, err) \<Rightarrow>
          (case (case err of None \<Rightarrow> None
                           | Some e \<Rightarrow> if isNotExist env e then None else Some e) of
             Some e \<Rightarrow> (ev, Inl e)
           | None \<Rightarrow>
               if wrapper \<noteq> []
               then (ev, Inr wrapper)
               else (case gradlePath env of
                       Inl e \<Rightarrow> (ev @ [GradlePath], Inl (WithStack e))
                     | Inr gradleCmd \<Rightarrow> (ev @ [GradlePath], Inr gradleCmd))))"

definition buildGradleCommand ::
  "'x environment \<Rightarrow> string \<Rightarrow> string list \<Rightarrow> event list \<times> ('x error + cmd)" where
  "buildGradleCommand env projectDir args =
     (case GetGradleCommand env projectDir of
        (ev, Inl e) \<Rightarrow> (ev, Inl e)
      | (ev, Inr gradleCmd) \<Rightarrow>
          (ev, Inr \<lparr>cmdPath = gradleCmd, cmdArgs = args, cmdDir = projectDir\<rparr>))"

subsection \<open>The three queries and Build\<close>

definition GradlePluginVersion ::
  "'x environment \<Rightarrow> BuilderOptions \<Rightarrow> event list \<times> ('x error + string)" where
  "GradlePluginVersion env b =
     (case buildGradleCommand env (ProjectDir b) [''cifuzzPrintPluginVersion'', ''-q''] of
        (ev, Inl e) \<Rightarrow> (ev, Inl (WithStack e))
      | (ev, Inr c) \<Rightarrow>
          (case cmdOutput env c of
             Inl e \<Rightarrow> (ev @ [DebugCommand c, Output c], Inl (WithStack e))
           | Inr out \<Rightarrow>
               (ev @ [DebugCommand c, Output c],
                Inr (TrimPrefix out ''cifuzz.plugin.version=''))))"

definition getDependencies ::
  "'x environment \<Rightarrow> BuilderOptions \<Rightarrow> event list \<times> ('x, string list) outcome" where
  "getDependencies env b =
     (case buildGradleCommand env (ProjectDir b) [''cifuzzPrintTestClasspath'', ''-q''] of
        (ev, Inl e) \<Rightarrow> (ev, Err e)
      | (ev, Inr c) \<Rightarrow>
          (case cmdOutput env c of
             Inl e \<Rightarrow>
               (ev @ [DebugCommand c, Output c], Err (wrapExecError env (WithStack e) c))
           | Inr out \<Rightarrow>
               (let classpath = FindStringSubmatch classpathRegex out
                in case index classpath 1 of
                     Inl p \<Rightarrow> (ev @ [DebugCommand c, Output c], Panic p)
                   | Inr cp \<Rightarrow>
                       (ev @ [DebugCommand c, Output c],
                        Ok (Split (TrimSpace cp) (pathListSeparator env))))))"

definition GetBuildDirectory ::
  "'x environment \<Rightarrow> string \<Rightarrow> event list \<times> ('x, string) outcome" where
  "GetBuildDirectory env projectDir =
     (case buildGradleCommand env projectDir [''cifuzzPrintBuildDir'', ''-q''] of
        (ev, Inl e) \<Rightarrow> (ev, Ok [])
      | (ev, Inr c) \<Rightarrow>
          (case cmdOutput env c of
             Inl e \<Rightarrow>
               (ev @ [DebugCommand c, Output c], Err (wrapExecError env (WithStack e) c))
           | Inr out \<Rightarrow>
               (let result = FindStringSubmatch buildDirRegex out
                in if result = None
                   then (ev @ [DebugCommand c, Output c],
                         Err (New ''Unable to parse gradle build directory from init script.''))
                   else (case index result 1 of
                           Inl p \<Rightarrow> (ev @ [DebugCommand c, Output c], Panic p)
                         | Inr dir \<Rightarrow>
                             (ev @ [DebugCommand c, Output c], Ok (TrimSpace dir))))))"

text \<open>
  \<open>Build\<close>. The slice \<open>flags\<close>, which the source fills from \<open>Parallel.Enabled\<close>, is
  never read and has no counterpart here.
\<close>

definition Build ::
  "'x environment \<Rightarrow> BuilderOptions \<Rightarrow> string \<Rightarrow> event list \<times> ('x, Result) outcome" where
  "Build env b targetClass =
     (case determineGradleBuildLanguage env (ProjectDir b) of
        Inl e \<Rightarrow> ([], Err e)
      | Inr gradleBuildLanguage \<Rightarrow>
          (case GradlePluginVersion env b of
             (ev1, Inl e) \<Rightarrow>
               (ev1 @ [Warn ''No cifuzz gradle plugin found'',
                       Print (instructions env gradleBuildLanguage)],
                Err (wrapSilentError env e))
           | (ev1, Inr version) \<Rightarrow>
               (case getDependencies env b of
                  (ev2, Err e) \<Rightarrow> (ev1 @ [DebugVersion version] @ ev2, Err e)
                | (ev2, Panic p) \<Rightarrow> (ev1 @ [DebugVersion version] @ ev2, Panic p)
                | (ev2, Ok deps) \<Rightarrow>
                    (case GetBuildDirectory env (ProjectDir b) of
                       (ev3, Err e) \<Rightarrow> (ev1 @ [DebugVersion version] @ ev2 @ ev3, Err e)
                     | (ev3, Panic p) \<Rightarrow> (ev1 @ [DebugVersion version] @ ev2 @ ev3, Panic p)
                     | (ev3, Ok buildDir) \<Rightarrow>
                         (ev1 @ [DebugVersion version] @ ev2 @ ev3,
                          Ok \<lparr>Name = targetClass,
                              BuildDir = buildDir,
                              ResultProjectDir = ProjectDir b,
                              GeneratedCorpus = jazzerGeneratedCorpus env targetClass (ProjectDir b),
                              SeedCorpus = jazzerSeedCorpus env targetClass (ProjectDir b),
                              RuntimeDeps = deps\<rparr>)))))"

section \<open>Concrete runs and projects\<close>

text \<open>
  Options that set the four fields the checker reads, a subprocess in which no step
  fails, and an \<open>IsTerminatedExitErr\<close> that knows one error.
\<close>

definition options :: "'p list \<Rightarrow> 'p option \<Rightarrow> bool \<Rightarrow> bool \<Rightarrow> 'p RunOptions" where
  "options expected unexpected terminateAfter expectError =
     \<lparr>FuzzTest = [], WorkDir = [], Env = [], Command = None, Args = [],
      ExpectedOutputs = expected, UnexpectedOutput = unexpected,
      TerminateAfterExpectedOutput = terminateAfter, ExpectError = expectError\<rparr>"

definition process :: "(stream \<times> string) list \<Rightarrow> 'e completion \<Rightarrow> 'e subprocess" where
  "process lines sel =
     \<lparr>setenvInteractiveErr = None, setenvNotificationsErr = None, envCopyErr = None,
      stdoutPipeErr = None, stderrPipeErr = None, startErr = None,
      scanned = lines, stdoutCloseErr = None, stderrCloseErr = None,
      terminateProcessGroup = (\<lambda>n. None), selected = sel\<rparr>"

definition isTerminated :: "string option \<Rightarrow> bool" where
  "isTerminated err = (err = Some ''signal: terminated'')"

text \<open>
  The errors of the other packages in the concrete environments: a message, and the
  two wrappers of package \<open>cmdutils\<close>.
\<close>

datatype foreign =
    Message string
  | SilentError "foreign error"
  | ExecError "foreign error" cmd

text \<open>
  An environment on a Unix system, given what the search for the wrapper returns and
  what the commands print; a project whose plugin answers the three queries, with the
  text of the classpath query left open; and a project without the plugin.
\<close>

definition gradleEnv ::
  "string \<times> foreign error option \<Rightarrow> (cmd \<Rightarrow> foreign error + string) \<Rightarrow> foreign environment" where
  "gradleEnv wrapper run =
     \<lparr>windows = False,
      pathListSeparator = CHR '':'',
      searchFileBackwards = (\<lambda>dir name. wrapper),
      isNotExist = (\<lambda>e. e = External (Message ''file does not exist'')),
      gradlePath = Inr ''gradle'',
      cmdOutput = run,
      determineGradleBuildLanguage = (\<lambda>dir. Inr ''groovy''),
      instructions = (\<lambda>language. ''add the cifuzz plugin to build.gradle''),
      wrapSilentError = (\<lambda>e. External (SilentError e)),
      wrapExecError = (\<lambda>e c. External (ExecError e c)),
      jazzerSeedCorpus = (\<lambda>target dir. dir @ ''/src/test/resources/'' @ target),
      jazzerGeneratedCorpus = (\<lambda>target dir. dir @ ''/.cifuzz-corpus/'' @ target)\<rparr>"

definition gradleProject :: "string \<Rightarrow> cmd \<Rightarrow> foreign error + string" where
  "gradleProject classpathOutput c =
     (if cmdArgs c = [''cifuzzPrintPluginVersion'', ''-q''] then Inr ''cifuzz.plugin.version=9.9.9''
      else if cmdArgs c = [''cifuzzPrintTestClasspath'', ''-q''] then Inr classpathOutput
      else Inr ''cifuzz.buildDir=/out'')"

definition noPlugin :: "cmd \<Rightarrow> foreign error + string" where
  "noPlugin c = Inl (External (Message ''exit status 1''))"

definition builder :: "string \<Rightarrow> BuilderOptions" where
  "builder dir = \<lparr>ProjectDir = dir, Parallel = \<lparr>Enabled = False, NumJobs = 0\<rparr>\<rparr>"

section \<open>A call of checkOutput, case by case\<close>

text \<open>The definitions that evaluating a concrete run unfolds.\<close>

lemmas run_simps = options_def process_def isTerminated_def started_def newOutputChecker_def
  deliver_def checkOutput_def checkUnexpected_def terminate_def requireNoError_def
  requireError_def requireTrue_def Let_def

lemmas joined_simps = joined_def scanning_def closePipe_def

lemmas gradle_simps = gradleEnv_def gradleProject_def noPlugin_def builder_def
  Build_def GradlePluginVersion_def getDependencies_def GetBuildDirectory_def
  buildGradleCommand_def GetGradleCommand_def FindGradleWrapper_def
  FindStringSubmatch_def classpathRegex_def buildDirRegex_def index_def newline_def
  TrimSpace_def TrimPrefix_def isSpace_def Let_def

text \<open>The loop of \<open>checkOutput\<close> is a filter.\<close>

lemma remainingLoop_filter:
  "remainingLoop ms line acc es = acc @ filter (\<lambda>e. \<not> ms e line) es"
  by (induction es arbitrary: acc) auto

lemma checkOutput_abort:
  "checkUnexpected ms c line = Some f \<Longrightarrow> checkOutput ms c w line = (Some f, c, w)"
  by (simp add: checkOutput_def)

lemma checkOutput_more:
  "checkUnexpected ms c line = None \<Longrightarrow> filter (\<lambda>e. \<not> ms e line) (expectedOutputs c) \<noteq> [] \<Longrightarrow>
   checkOutput ms c w line = (None, c\<lparr>expectedOutputs := filter (\<lambda>e. \<not> ms e line) (expectedOutputs c)\<rparr>, w)"
  by (simp add: checkOutput_def remainingLoop_filter Let_def)

lemma checkOutput_seen:
  "checkUnexpected ms c line = None \<Longrightarrow> filter (\<lambda>e. \<not> ms e line) (expectedOutputs c) = [] \<Longrightarrow>
   \<not> terminateAfterExpectedOutput c \<Longrightarrow>
   checkOutput ms c w line = (None, c\<lparr>expectedOutputs := [], hasSeenExpectedOutputs := True\<rparr>, w)"
  by (simp add: checkOutput_def remainingLoop_filter Let_def)

lemma checkOutput_kill:
  "checkUnexpected ms c line = None \<Longrightarrow> filter (\<lambda>e. \<not> ms e line) (expectedOutputs c) = [] \<Longrightarrow>
   terminateAfterExpectedOutput c \<Longrightarrow>
   checkOutput ms c w line =
     (fst (termationFunc c w),
      c\<lparr>expectedOutputs := [], hasSeenExpectedOutputs := True, hasCalledTerminationFunc := True\<rparr>,
      snd (termationFunc c w))"
  by (simp add: checkOutput_def remainingLoop_filter Let_def)

lemma checkOutput_cases [case_names abort more seen kill]:
  assumes "\<And>f. checkUnexpected ms c line = Some f \<Longrightarrow> checkOutput ms c w line = (Some f, c, w) \<Longrightarrow> R"
    and "checkUnexpected ms c line = None \<Longrightarrow> filter (\<lambda>e. \<not> ms e line) (expectedOutputs c) \<noteq> [] \<Longrightarrow>
         checkOutput ms c w line = (None, c\<lparr>expectedOutputs := filter (\<lambda>e. \<not> ms e line) (expectedOutputs c)\<rparr>, w) \<Longrightarrow> R"
    and "checkUnexpected ms c line = None \<Longrightarrow> filter (\<lambda>e. \<not> ms e line) (expectedOutputs c) = [] \<Longrightarrow>
         \<not> terminateAfterExpectedOutput c \<Longrightarrow>
         checkOutput ms c w line = (None, c\<lparr>expectedOutputs := [], hasSeenExpectedOutputs := True\<rparr>, w) \<Longrightarrow> R"
    and "checkUnexpected ms c line = None \<Longrightarrow> filter (\<lambda>e. \<not> ms e line) (expectedOutputs c) = [] \<Longrightarrow>
         terminateAfterExpectedOutput c \<Longrightarrow>
         checkOutput ms c w line =
           (fst (termationFunc c w),
            c\<lparr>expectedOutputs := [], hasSeenExpectedOutputs := True, hasCalledTerminationFunc := True\<rparr>,
            snd (termationFunc c w)) \<Longrightarrow> R"
  shows R
proof (cases "checkUnexpected ms c line")
  case (Some f)
  show ?thesis
    by (rule assms(1) [OF Some checkOutput_abort [OF Some]])
next
  case None
  show ?thesis
  proof (cases "filter (\<lambda>e. \<not> ms e line) (expectedOutputs c) = []")
    case False
    show ?thesis
      by (rule assms(2) [OF None False checkOutput_more [OF None False]])
  next
    case True
    show ?thesis
    proof (cases "terminateAfterExpectedOutput c")
      case False
      show ?thesis
        by (rule assms(3) [OF None True False checkOutput_seen [OF None True False]])
    next
      case flag: True
      show ?thesis
        by (rule assms(4) [OF None True flag checkOutput_kill [OF None True flag]])
    qed
  qed
qed

text \<open>What a call leaves alone, and what it changes.\<close>

lemma checkOutput_config:
  "unexpectedOutput (fst (snd (checkOutput ms c w line))) = unexpectedOutput c \<and>
   terminateAfterExpectedOutput (fst (snd (checkOutput ms c w line))) = terminateAfterExpectedOutput c \<and>
   termationFunc (fst (snd (checkOutput ms c w line))) = termationFunc c \<and>
   lenExpectedOutputs (fst (snd (checkOutput ms c w line))) = lenExpectedOutputs c"
  by (rule checkOutput_cases[of ms c line w]; simp)

lemma checkOutput_expected:
  "expectedOutputs (fst (snd (checkOutput ms c w line))) =
     (if checkUnexpected ms c line = None
      then filter (\<lambda>e. \<not> ms e line) (expectedOutputs c) else expectedOutputs c)"
  by (rule checkOutput_cases[of ms c line w]; simp)

lemma checkOutput_hasSeen:
  "hasSeenExpectedOutputs (fst (snd (checkOutput ms c w line))) =
     (hasSeenExpectedOutputs c \<or>
      checkUnexpected ms c line = None \<and> filter (\<lambda>e. \<not> ms e line) (expectedOutputs c) = [])"
  by (rule checkOutput_cases[of ms c line w]; simp)

lemma checkOutput_hasCalled:
  "hasCalledTerminationFunc (fst (snd (checkOutput ms c w line))) =
     (hasCalledTerminationFunc c \<or>
      checkUnexpected ms c line = None \<and> filter (\<lambda>e. \<not> ms e line) (expectedOutputs c) = [] \<and>
      terminateAfterExpectedOutput c)"
  by (rule checkOutput_cases[of ms c line w]; simp)

lemma checkOutput_world:
  "snd (snd (checkOutput ms c w line)) =
     (if checkUnexpected ms c line = None \<and> filter (\<lambda>e. \<not> ms e line) (expectedOutputs c) = [] \<and>
         terminateAfterExpectedOutput c
      then snd (termationFunc c w) else w)"
  by (rule checkOutput_cases[of ms c line w]; simp)

lemma checkOutput_failure:
  "fst (checkOutput ms c w line) =
     (case checkUnexpected ms c line of
        Some f \<Rightarrow> Some f
      | None \<Rightarrow>
          if filter (\<lambda>e. \<not> ms e line) (expectedOutputs c) = [] \<and> terminateAfterExpectedOutput c
          then fst (termationFunc c w) else None)"
  by (rule checkOutput_cases[of ms c line w]; simp)

text \<open>One delivered line, seen from the run state.\<close>

lemma deliver_dead: "\<not> alive s k \<Longrightarrow> deliver ms k line s = s"
  by (simp add: deliver_def)

lemma deliver_checker:
  "checker (deliver ms k line s) =
     (if alive s k then fst (snd (checkOutput ms (checker s) (world s) line)) else checker s)"
  by (simp add: deliver_def split: prod.splits option.splits)

lemma deliver_world:
  "world (deliver ms k line s) =
     (if alive s k then snd (snd (checkOutput ms (checker s) (world s) line)) else world s)"
  by (simp add: deliver_def split: prod.splits option.splits)

lemma deliver_failures:
  "failures (deliver ms k line s) =
     (if alive s k
      then (case fst (checkOutput ms (checker s) (world s) line) of
              None \<Rightarrow> failures s | Some f \<Rightarrow> failures s @ [f])
      else failures s)"
  by (simp add: deliver_def split: prod.splits option.splits)

lemma deliver_alive:
  "alive (deliver ms k line s) =
     (if alive s k \<and> fst (checkOutput ms (checker s) (world s) line) \<noteq> None
      then (alive s)(k := False) else alive s)"
  by (auto simp add: deliver_def split: prod.splits option.splits)

section \<open>Sequences of calls\<close>

lemma checkUnexpected_cong:
  "unexpectedOutput c' = unexpectedOutput c \<Longrightarrow> checkUnexpected ms c' line = checkUnexpected ms c line"
  by (simp add: checkUnexpected_def)

lemma deliver_config:
  "unexpectedOutput (checker (deliver ms k line s)) = unexpectedOutput (checker s) \<and>
   terminateAfterExpectedOutput (checker (deliver ms k line s)) = terminateAfterExpectedOutput (checker s) \<and>
   termationFunc (checker (deliver ms k line s)) = termationFunc (checker s) \<and>
   lenExpectedOutputs (checker (deliver ms k line s)) = lenExpectedOutputs (checker s)"
  by (simp add: deliver_checker checkOutput_config)

lemma consume_config:
  "unexpectedOutput (checker (consume ms L s)) = unexpectedOutput (checker s) \<and>
   terminateAfterExpectedOutput (checker (consume ms L s)) = terminateAfterExpectedOutput (checker s) \<and>
   termationFunc (checker (consume ms L s)) = termationFunc (checker s) \<and>
   lenExpectedOutputs (checker (consume ms L s)) = lenExpectedOutputs (checker s)"
proof (induction L arbitrary: s)
  case Nil
  show ?case by simp
next
  case (Cons x L)
  obtain k line where x: "x = (k, line)" by (cases x)
  show ?case using Cons [of "deliver ms k line s"] by (simp add: x deliver_config)
qed

lemma consume_append: "consume ms (L1 @ L2) s = consume ms L2 (consume ms L1 s)"
  by (induction L1 arbitrary: s) auto

lemma deliver_checkUnexpected:
  "checkUnexpected ms (checker (deliver ms k line s)) l = checkUnexpected ms (checker s) l"
  by (rule checkUnexpected_cong) (simp add: deliver_config)

lemma deliver_expected:
  "expectedOutputs (checker (deliver ms k line s)) =
     (if alive s k \<and> checkUnexpected ms (checker s) line = None
      then filter (\<lambda>e. \<not> ms e line) (expectedOutputs (checker s))
      else expectedOutputs (checker s))"
  by (simp add: deliver_checker checkOutput_expected)

lemma deliver_hasSeen:
  "hasSeenExpectedOutputs (checker (deliver ms k line s)) =
     (hasSeenExpectedOutputs (checker s) \<or>
      alive s k \<and> checkUnexpected ms (checker s) line = None \<and>
      filter (\<lambda>e. \<not> ms e line) (expectedOutputs (checker s)) = [])"
  by (simp add: deliver_checker checkOutput_hasSeen)

lemma deliver_hasCalled:
  "hasCalledTerminationFunc (checker (deliver ms k line s)) =
     (hasCalledTerminationFunc (checker s) \<or>
      alive s k \<and> checkUnexpected ms (checker s) line = None \<and>
      filter (\<lambda>e. \<not> ms e line) (expectedOutputs (checker s)) = [] \<and>
      terminateAfterExpectedOutput (checker s))"
  by (simp add: deliver_checker checkOutput_hasCalled)

text \<open>Monotonicity of one step and of a sequence.\<close>

lemma deliver_monotone:
  "subseq (expectedOutputs (checker (deliver ms k line s))) (expectedOutputs (checker s)) \<and>
   (hasSeenExpectedOutputs (checker s) \<longrightarrow> hasSeenExpectedOutputs (checker (deliver ms k line s))) \<and>
   (hasCalledTerminationFunc (checker s) \<longrightarrow> hasCalledTerminationFunc (checker (deliver ms k line s)))"
  by (simp add: deliver_expected deliver_hasSeen deliver_hasCalled)

lemma consume_monotone:
  "subseq (expectedOutputs (checker (consume ms L s))) (expectedOutputs (checker s)) \<and>
   (hasSeenExpectedOutputs (checker s) \<longrightarrow> hasSeenExpectedOutputs (checker (consume ms L s))) \<and>
   (hasCalledTerminationFunc (checker s) \<longrightarrow> hasCalledTerminationFunc (checker (consume ms L s)))"
proof (induction L arbitrary: s)
  case Nil
  show ?case by simp
next
  case (Cons x L)
  obtain k line where x: "x = (k, line)" by (cases x)
  let ?s = "deliver ms k line s"
  have step: "subseq (expectedOutputs (checker ?s)) (expectedOutputs (checker s))"
    "hasSeenExpectedOutputs (checker s) \<longrightarrow> hasSeenExpectedOutputs (checker ?s)"
    "hasCalledTerminationFunc (checker s) \<longrightarrow> hasCalledTerminationFunc (checker ?s)"
    using deliver_monotone [of ms k line s] by blast+
  have rest: "subseq (expectedOutputs (checker (consume ms L ?s))) (expectedOutputs (checker ?s))"
    "hasSeenExpectedOutputs (checker ?s) \<longrightarrow> hasSeenExpectedOutputs (checker (consume ms L ?s))"
    "hasCalledTerminationFunc (checker ?s) \<longrightarrow> hasCalledTerminationFunc (checker (consume ms L ?s))"
    using Cons [of ?s] by blast+
  have "subseq (expectedOutputs (checker (consume ms L ?s))) (expectedOutputs (checker s))"
    using rest(1) step(1) by (rule subseq_order.trans)
  then show ?case using step(2,3) rest(2,3) by (simp add: x)
qed

text \<open>A dead consumer has left a failure behind.\<close>

lemma deliver_dead_failed:
  assumes "\<forall>k'. \<not> alive s k' \<longrightarrow> failures s \<noteq> []"
  shows "\<forall>k'. \<not> alive (deliver ms k line s) k' \<longrightarrow> failures (deliver ms k line s) \<noteq> []"
  using assms by (auto simp add: deliver_failures deliver_alive split: option.splits if_splits)

lemma deliver_failures_grow:
  "failures s \<noteq> [] \<Longrightarrow> failures (deliver ms k line s) \<noteq> []"
  by (simp add: deliver_failures split: option.splits)

lemma consume_failures_grow:
  "failures s \<noteq> [] \<Longrightarrow> failures (consume ms L s) \<noteq> []"
proof (induction L arbitrary: s)
  case Nil
  then show ?case by simp
next
  case (Cons x L)
  obtain k line where x: "x = (k, line)" by (cases x)
  show ?case using Cons.IH [OF deliver_failures_grow [OF Cons.prems]] by (simp add: x)
qed

lemma deliver_unexpected_fails:
  assumes "\<forall>k'. \<not> alive s k' \<longrightarrow> failures s \<noteq> []"
    and "checkUnexpected ms (checker s) line \<noteq> None"
  shows "failures (deliver ms k line s) \<noteq> []"
proof (cases "alive s k")
  case False
  then show ?thesis using assms(1) by (auto simp add: deliver_dead)
next
  case True
  then show ?thesis using assms(2)
    by (auto simp add: deliver_failures checkOutput_failure split: option.splits)
qed

lemma consume_unexpected_fails:
  assumes "\<forall>k'. \<not> alive s k' \<longrightarrow> failures s \<noteq> []"
    and "(k, line) \<in> set L"
    and "checkUnexpected ms (checker s) line \<noteq> None"
  shows "failures (consume ms L s) \<noteq> []"
  using assms
proof (induction L arbitrary: s)
  case Nil
  then show ?case by simp
next
  case (Cons x L)
  obtain k' line' where x: "x = (k', line')" by (cases x)
  show ?case
  proof (cases "(k, line) = (k', line')")
    case True
    have "failures (deliver ms k' line' s) \<noteq> []"
      using deliver_unexpected_fails [OF Cons.prems(1)] Cons.prems(3) True by simp
    then show ?thesis using consume_failures_grow by (simp add: x)
  next
    case False
    then have mem: "(k, line) \<in> set L" using Cons.prems(2) x by auto
    have "failures (consume ms L (deliver ms k' line' s)) \<noteq> []"
      using Cons.IH [OF deliver_dead_failed [OF Cons.prems(1)] mem] Cons.prems(3)
      by (simp add: deliver_checkUnexpected)
    then show ?thesis by (simp add: x)
  qed
qed

section \<open>What remains expected\<close>

lemma deliver_remaining:
  assumes "checkUnexpected ms (checker s) line = None"
    and "(\<exists>k'. \<not> alive s k') \<longrightarrow> expectedOutputs (checker s) = []"
  shows "expectedOutputs (checker (deliver ms k line s)) =
           filter (\<lambda>e. \<not> ms e line) (expectedOutputs (checker s))"
    and "(\<exists>k'. \<not> alive (deliver ms k line s) k') \<longrightarrow>
           expectedOutputs (checker (deliver ms k line s)) = []"
proof -
  show exp: "expectedOutputs (checker (deliver ms k line s)) =
           filter (\<lambda>e. \<not> ms e line) (expectedOutputs (checker s))"
  proof (cases "alive s k")
    case True
    then show ?thesis using assms(1) by (simp add: deliver_expected)
  next
    case False
    then have "expectedOutputs (checker s) = []" using assms(2) by blast
    then show ?thesis by (simp add: deliver_expected)
  qed
  show "(\<exists>k'. \<not> alive (deliver ms k line s) k') \<longrightarrow>
           expectedOutputs (checker (deliver ms k line s)) = []"
  proof
    assume dead: "\<exists>k'. \<not> alive (deliver ms k line s) k'"
    show "expectedOutputs (checker (deliver ms k line s)) = []"
    proof (cases "\<exists>k'. \<not> alive s k'")
      case True
      then have "expectedOutputs (checker s) = []" using assms(2) by blast
      then show ?thesis by (simp add: exp)
    next
      case False
      then have "alive s k" and "fst (checkOutput ms (checker s) (world s) line) \<noteq> None"
        using dead by (auto simp add: deliver_alive split: if_splits)
      then have "filter (\<lambda>e. \<not> ms e line) (expectedOutputs (checker s)) = []"
        using assms(1) by (simp add: checkOutput_failure split: if_splits)
      then show ?thesis by (simp add: exp)
    qed
  qed
qed

lemma consume_remaining:
  assumes "\<forall>l \<in> snd ` set L. checkUnexpected ms (checker s) l = None"
    and "(\<exists>k. \<not> alive s k) \<longrightarrow> expectedOutputs (checker s) = []"
  shows "expectedOutputs (checker (consume ms L s)) =
           filter (\<lambda>p. \<forall>l \<in> snd ` set L. \<not> ms p l) (expectedOutputs (checker s))"
  using assms
proof (induction L arbitrary: s)
  case Nil
  show ?case by simp
next
  case (Cons x L)
  obtain k line where x: "x = (k, line)" by (cases x)
  let ?s = "deliver ms k line s"
  have here: "checkUnexpected ms (checker s) line = None"
    using Cons.prems(1) x by simp
  have later: "\<forall>l \<in> snd ` set L. checkUnexpected ms (checker ?s) l = None"
    using Cons.prems(1) by (simp add: deliver_checkUnexpected)
  have "expectedOutputs (checker (consume ms L ?s)) =
          filter (\<lambda>p. \<forall>l \<in> snd ` set L. \<not> ms p l) (expectedOutputs (checker ?s))"
    by (rule Cons.IH [OF later deliver_remaining(2) [OF here Cons.prems(2)]])
  also have "\<dots> = filter (\<lambda>p. \<forall>l \<in> snd ` set L. \<not> ms p l)
                     (filter (\<lambda>e. \<not> ms e line) (expectedOutputs (checker s)))"
    by (simp only: deliver_remaining(1) [OF here Cons.prems(2)])
  also have "\<dots> = filter (\<lambda>p. \<forall>l \<in> snd ` set (x # L). \<not> ms p l) (expectedOutputs (checker s))"
    by (auto simp add: x intro: filter_cong)
  finally show ?case by (simp add: x)
qed

lemma started_fields:
  "checker (started opts tpg) = newOutputChecker opts tpg"
  "world (started opts tpg) = 0"
  "failures (started opts tpg) = []"
  "alive (started opts tpg) k"
  by (simp_all add: started_def)

lemma newOutputChecker_fields:
  "expectedOutputs (newOutputChecker opts tpg) = ExpectedOutputs opts"
  "unexpectedOutput (newOutputChecker opts tpg) = UnexpectedOutput opts"
  "terminateAfterExpectedOutput (newOutputChecker opts tpg) = TerminateAfterExpectedOutput opts"
  "termationFunc (newOutputChecker opts tpg) = terminate tpg"
  "hasSeenExpectedOutputs (newOutputChecker opts tpg) = False"
  "hasCalledTerminationFunc (newOutputChecker opts tpg) = False"
  by (simp_all add: newOutputChecker_def)

text \<open>
  Claim C1, as amended. The two consumers read the lines \<open>out\<close> of the standard output
  and the lines \<open>err\<close> of the standard error, and \<open>L\<close> is any interleaving of the two
  that keeps the order of each stream. If no line matches the unexpected output (as when
  none is configured), the patterns still expected after the run are the patterns of
  \<open>ExpectedOutputs\<close>, in their order, that match no line of either stream: the same
  list for every interleaving. A line that matches the unexpected output is outside the
  statement: the call fails before it removes a pattern.
\<close>

theorem remaining_is_unmatched:
  assumes "L \<in> shuffles (map (Pair Stdout) out) (map (Pair Stderr) err)"
    and "\<forall>l \<in> set out \<union> set err. checkUnexpected ms (newOutputChecker opts tpg) l = None"
  shows "expectedOutputs (checker (consume ms L (started opts tpg))) =
           filter (\<lambda>p. \<forall>l \<in> set out \<union> set err. \<not> ms p l) (ExpectedOutputs opts)"
proof -
  have "set L = set (map (Pair Stdout) out) \<union> set (map (Pair Stderr) err)"
    using assms(1) by (rule set_shuffles)
  then have lines: "snd ` set L = set out \<union> set err"
    by (simp add: image_Un image_image)
  have "expectedOutputs (checker (consume ms L (started opts tpg))) =
          filter (\<lambda>p. \<forall>l \<in> snd ` set L. \<not> ms p l) (expectedOutputs (checker (started opts tpg)))"
    by (rule consume_remaining) (simp_all add: started_fields lines assms(2))
  then show ?thesis
    by (simp only: lines started_fields newOutputChecker_fields)
qed

text \<open>
  The theorem at work: the line \<open>READY DONE\<close> removes two patterns at once, and the
  pattern that no line matches is what remains.
\<close>

theorem remaining_is_unmatched_witness:
  "[(Stderr, ''x''), (Stdout, ''READY DONE'')]
     \<in> shuffles (map (Pair Stdout) [''READY DONE'']) (map (Pair Stderr) [''x''])
   \<and> checkUnexpected matchLiteral
         (newOutputChecker (options [''READY'', ''DONE'', ''NEVER''] (Some ''PANIC'') False False)
            (\<lambda>n. None :: string option)) ''READY DONE'' = None
   \<and> checkUnexpected matchLiteral
         (newOutputChecker (options [''READY'', ''DONE'', ''NEVER''] (Some ''PANIC'') False False)
            (\<lambda>n. None :: string option)) ''x'' = None
   \<and> expectedOutputs (checker (consume matchLiteral [(Stderr, ''x''), (Stdout, ''READY DONE'')]
         (started (options [''READY'', ''DONE'', ''NEVER''] (Some ''PANIC'') False False)
            (\<lambda>n. None :: string option)))) = [''NEVER'']"
  using remaining_is_unmatched [of "[(Stderr, ''x''), (Stdout, ''READY DONE'')]"
      "[''READY DONE'']" "[''x'']" matchLiteral
      "options [''READY'', ''DONE'', ''NEVER''] (Some ''PANIC'') False False"
      "\<lambda>n. None :: string option"]
  by (simp add: options_def newOutputChecker_def checkUnexpected_def)

text \<open>
  Claim C1 as it was stated fails when an unexpected output is configured: the line
  \<open>PANIC DONE\<close> is handed to \<open>checkOutput\<close> and matches the expected pattern \<open>DONE\<close>,
  yet \<open>DONE\<close> is still expected after the call.
\<close>

theorem remaining_counterexample:
  "matchLiteral ''DONE'' ''PANIC DONE''
   \<and> expectedOutputs (checker (consume matchLiteral [(Stdout, ''PANIC DONE'')]
        (started (options [''DONE''] (Some ''PANIC'') False False) (\<lambda>n. None :: string option))))
      = [''DONE'']
   \<and> expectedOutputs (checker (consume matchLiteral [(Stdout, ''PANIC DONE'')]
        (started (options [''DONE''] (Some ''PANIC'') False False) (\<lambda>n. None :: string option))))
      \<noteq> filter (\<lambda>p. \<forall>l \<in> set [''PANIC DONE'']. \<not> matchLiteral p l) [''DONE'']"
  by (simp add: run_simps)

section \<open>Monotonicity\<close>

lemma subseq_subset: "subseq xs ys \<Longrightarrow> set xs \<subseteq> set ys"
  by (auto elim: list_emb_set)

lemma subseq_of_Nil: "subseq xs ys \<Longrightarrow> ys = [] \<longrightarrow> xs = []"
  by auto

lemma checkOutput_monotone:
  "subseq (expectedOutputs (fst (snd (checkOutput ms c w line)))) (expectedOutputs c) \<and>
   (hasSeenExpectedOutputs c \<longrightarrow> hasSeenExpectedOutputs (fst (snd (checkOutput ms c w line))))"
  by (simp add: checkOutput_expected checkOutput_hasSeen)
text \<open>
  Claim C8. A call of \<open>checkOutput\<close> leaves in \<open>expectedOutputs\<close> a subsequence of
  what it found there, so the set of expected patterns never grows and, once empty,
  stays empty; and it never resets \<open>hasSeenExpectedOutputs\<close>. The same holds from any
  state of a run to the state that any further lines of the two streams lead to.
\<close>

theorem checker_monotone:
  "(subseq (expectedOutputs (fst (snd (checkOutput ms c w line)))) (expectedOutputs c) \<and>
    set (expectedOutputs (fst (snd (checkOutput ms c w line)))) \<subseteq> set (expectedOutputs c) \<and>
    (expectedOutputs c = [] \<longrightarrow> expectedOutputs (fst (snd (checkOutput ms c w line))) = []) \<and>
    (hasSeenExpectedOutputs c \<longrightarrow> hasSeenExpectedOutputs (fst (snd (checkOutput ms c w line))))) \<and>
   (subseq (expectedOutputs (checker (consume ms L s))) (expectedOutputs (checker s)) \<and>
    set (expectedOutputs (checker (consume ms L s))) \<subseteq> set (expectedOutputs (checker s)) \<and>
    (expectedOutputs (checker s) = [] \<longrightarrow> expectedOutputs (checker (consume ms L s)) = []) \<and>
    (hasSeenExpectedOutputs (checker s) \<longrightarrow> hasSeenExpectedOutputs (checker (consume ms L s))))"
proof -
  have one: "subseq (expectedOutputs (fst (snd (checkOutput ms c w line)))) (expectedOutputs c)"
    and seen1: "hasSeenExpectedOutputs c \<longrightarrow>
                hasSeenExpectedOutputs (fst (snd (checkOutput ms c w line)))"
    using checkOutput_monotone [of ms c w line] by blast+
  have many: "subseq (expectedOutputs (checker (consume ms L s))) (expectedOutputs (checker s))"
    and seen2: "hasSeenExpectedOutputs (checker s) \<longrightarrow>
                hasSeenExpectedOutputs (checker (consume ms L s))"
    using consume_monotone [of ms L s] by blast+
  show ?thesis
    using one seen1 many seen2
      subseq_subset [OF one] subseq_of_Nil [OF one]
      subseq_subset [OF many] subseq_of_Nil [OF many]
    by blast
qed

text \<open>
  The theorem at a state in which nothing is expected any more and all has been seen:
  a further line changes neither.
\<close>

theorem checker_monotone_witness:
  "expectedOutputs (checker (consume matchLiteral [(Stdout, ''READY DONE'')]
      (started (options [''READY'', ''DONE''] None False False) (\<lambda>n. None :: string option)))) = []
   \<and> hasSeenExpectedOutputs (checker (consume matchLiteral [(Stdout, ''READY DONE'')]
      (started (options [''READY'', ''DONE''] None False False) (\<lambda>n. None :: string option))))
   \<and> expectedOutputs (checker (consume matchLiteral [(Stderr, ''more'')]
      (consume matchLiteral [(Stdout, ''READY DONE'')]
        (started (options [''READY'', ''DONE''] None False False) (\<lambda>n. None :: string option))))) = []
   \<and> hasSeenExpectedOutputs (checker (consume matchLiteral [(Stderr, ''more'')]
      (consume matchLiteral [(Stdout, ''READY DONE'')]
        (started (options [''READY'', ''DONE''] None False False) (\<lambda>n. None :: string option)))))"
proof -
  let ?s = "consume matchLiteral [(Stdout, ''READY DONE'')]
      (started (options [''READY'', ''DONE''] None False False) (\<lambda>n. None :: string option))"
  have empty: "expectedOutputs (checker ?s) = []" by (simp add: run_simps)
  have seen: "hasSeenExpectedOutputs (checker ?s)" by (simp add: run_simps)
  show ?thesis
    using empty seen
      checker_monotone [of matchLiteral "checker ?s" "world ?s" "''more''" "[(Stderr, ''more'')]" ?s]
    by blast
qed

section \<open>The unexpected output\<close>

lemma closePipe_checker: "checker (closePipe k err s) = checker s"
  by (simp add: closePipe_def split: option.splits)

lemma closePipe_world: "world (closePipe k err s) = world s"
  by (simp add: closePipe_def split: option.splits)

lemma closePipe_failures_grow: "failures s \<noteq> [] \<Longrightarrow> failures (closePipe k err s) \<noteq> []"
  by (simp add: closePipe_def split: option.splits)

lemma joined_checker: "checker (joined ms opts proc) = checker (scanning ms opts proc)"
  by (simp add: joined_def closePipe_checker)

lemma joined_world: "world (joined ms opts proc) = world (scanning ms opts proc)"
  by (simp add: joined_def closePipe_world)

lemma joined_failures_grow:
  "failures (scanning ms opts proc) \<noteq> [] \<Longrightarrow> failures (joined ms opts proc) \<noteq> []"
  by (simp add: joined_def closePipe_failures_grow)

lemma finish_grow: "failures s \<noteq> [] \<Longrightarrow> finish s \<noteq> []"
  by (simp add: finish_def split: option.splits)

lemma finish_unseen:
  "\<not> hasSeenExpectedOutputs (checker s) \<Longrightarrow>
   finish s = failures s @ [DidNotSee (expectedOutputs (checker s))]"
  by (simp add: finish_def finalAssertion_def requireTrue_def)

lemma Run_failed_before:
  assumes "failures (scanning ms opts proc) \<noteq> []"
  shows "Run ms isTerminatedExitErr opts proc \<noteq> []"
proof (cases "startup proc :: ('a, 'b) failure option")
  case (Some f)
  then show ?thesis by (simp add: Run_def)
next
  case None
  show ?thesis
  proof (cases "selected proc")
    case (WaitReturned waitErr)
    then show ?thesis
      using None joined_failures_grow [OF assms] finish_grow [of "joined ms opts proc"]
      by (simp add: Run_def Let_def split: option.splits)
  next
    case (ContextDone ctxErr)
    then show ?thesis
      using None assms finish_grow [of "scanning ms opts proc"]
      by (simp add: Run_def Let_def split: option.splits)
  qed
qed
text \<open>
  Claim C7. When an unexpected output is configured and the line matches it,
  \<open>checkOutput\<close> fails at once with the pattern and the line, and leaves the checker and
  the world as they were: the expected patterns are not looked at, whatever they are.
  A run in which such a line is scanned does not pass, whatever the state of the
  expected patterns.
\<close>

theorem unexpected_output_fails:
  assumes "unexpectedOutput c = Some u" and "ms u line"
  shows "checkOutput ms c w line = (Some (SeenUnexpected u line), c, w) \<and>
         (\<forall>opts proc isTerminatedExitErr k.
            UnexpectedOutput opts = Some u \<and> (k, line) \<in> set (scanned proc) \<longrightarrow>
            Run ms isTerminatedExitErr opts (proc :: 'e subprocess) \<noteq> ([] :: ('p, 'e) failure list))"
proof -
  have call: "checkOutput ms c w line = (Some (SeenUnexpected u line), c, w)"
    by (rule checkOutput_abort) (simp add: checkUnexpected_def assms)
  have run: "Run ms isTerminatedExitErr opts proc \<noteq> []"
    if "UnexpectedOutput opts = Some u" and "(k, line) \<in> set (scanned proc)"
    for opts :: "'p RunOptions" and proc :: "'e subprocess" and isTerminatedExitErr k
  proof -
    have "failures (scanning ms opts proc) \<noteq> []"
      unfolding scanning_def
      by (rule consume_unexpected_fails [OF _ that(2)])
         (simp_all add: started_fields checkUnexpected_def newOutputChecker_fields that(1) assms(2))
    then show ?thesis by (rule Run_failed_before)
  qed
  show ?thesis using call run by blast
qed

text \<open>
  The theorem in a run that expects nothing, so that all expected patterns are
  satisfied from the start: the line \<open>PANIC: oops\<close> fails it.
\<close>

theorem unexpected_output_fails_witness:
  "unexpectedOutput (newOutputChecker (options [] (Some ''PANIC'') True False)
        (\<lambda>n. None :: string option)) = Some ''PANIC''
   \<and> matchLiteral ''PANIC'' ''PANIC: oops''
   \<and> checkOutput matchLiteral
        (newOutputChecker (options [] (Some ''PANIC'') True False) (\<lambda>n. None :: string option))
        0 ''PANIC: oops''
      = (Some (SeenUnexpected ''PANIC'' ''PANIC: oops''),
         newOutputChecker (options [] (Some ''PANIC'') True False) (\<lambda>n. None :: string option), 0)
   \<and> Run matchLiteral isTerminated (options [] (Some ''PANIC'') True False)
        (process [(Stderr, ''PANIC: oops'')] (WaitReturned None)) \<noteq> []"
proof -
  let ?opts = "options [] (Some ''PANIC'') True False :: string RunOptions"
  let ?c = "newOutputChecker ?opts (\<lambda>n. None :: string option)"
  let ?proc = "process [(Stderr, ''PANIC: oops'')] (WaitReturned None) :: string subprocess"
  have configured: "unexpectedOutput ?c = Some ''PANIC''"
    by (simp add: newOutputChecker_def options_def)
  have matches: "matchLiteral ''PANIC'' ''PANIC: oops''"
    by simp
  have inRun: "UnexpectedOutput ?opts = Some ''PANIC'' \<and> (Stderr, ''PANIC: oops'') \<in> set (scanned ?proc)"
    by (simp add: options_def process_def)
  note r = unexpected_output_fails [where c = ?c and u = "''PANIC''" and ms = matchLiteral
      and line = "''PANIC: oops''" and w = 0, OF configured matches]
  have call: "checkOutput matchLiteral ?c 0 ''PANIC: oops''
      = (Some (SeenUnexpected ''PANIC'' ''PANIC: oops''), ?c, 0)"
    by (rule r [THEN conjunct1])
  have run: "Run matchLiteral isTerminated ?opts ?proc \<noteq> []"
    by (rule r [THEN conjunct2, rule_format, OF inRun])
  show ?thesis
    by (rule conjI [OF configured conjI [OF matches conjI [OF call run]]])
qed

section \<open>Termination calls\<close>

lemma terminate_simps:
  "fst (terminate tpg n) = requireNoError (tpg n)" "snd (terminate tpg n) = Suc n"
  by (simp_all add: terminate_def)

text \<open>
  Claim C2, as amended. With the termination function that \<open>Run\<close> builds, a call of
  \<open>checkOutput\<close> calls \<open>cmd.TerminateProcessGroup\<close> exactly once if it passes the test on
  the unexpected output, leaves nothing expected and the run terminates after the
  expected output, and not at all otherwise; whether \<open>hasCalledTerminationFunc\<close> was set
  before plays no part. The flag is set by the calls that terminate and is never reset.
  So once nothing is expected, each further line calls the termination function again:
  \<open>n\<close> lines make \<open>n\<close> calls (while no call fails).
\<close>

theorem termination_on_every_call:
  "(termationFunc c = terminate tpg \<longrightarrow>
      snd (snd (checkOutput ms c w line)) =
        (if checkUnexpected ms c line = None \<and>
            filter (\<lambda>e. \<not> ms e line) (expectedOutputs c) = [] \<and>
            terminateAfterExpectedOutput c
         then Suc w else w) \<and>
      hasCalledTerminationFunc (fst (snd (checkOutput ms c w line))) =
        (hasCalledTerminationFunc c \<or> snd (snd (checkOutput ms c w line)) = Suc w)) \<and>
   (termationFunc (checker s) = terminate (\<lambda>n. None) \<and>
    terminateAfterExpectedOutput (checker s) \<and>
    expectedOutputs (checker s) = [] \<and>
    (\<forall>k. alive s k) \<and>
    (\<forall>l \<in> snd ` set L. checkUnexpected ms (checker s) l = None) \<longrightarrow>
      world (consume ms L s) = world s + length L \<and>
      (L \<noteq> [] \<longrightarrow> hasCalledTerminationFunc (checker (consume ms L s))))"
proof -
  have call: "termationFunc c = terminate tpg \<longrightarrow>
      snd (snd (checkOutput ms c w line)) =
        (if checkUnexpected ms c line = None \<and>
            filter (\<lambda>e. \<not> ms e line) (expectedOutputs c) = [] \<and>
            terminateAfterExpectedOutput c
         then Suc w else w) \<and>
      hasCalledTerminationFunc (fst (snd (checkOutput ms c w line))) =
        (hasCalledTerminationFunc c \<or> snd (snd (checkOutput ms c w line)) = Suc w)"
  proof
    assume t: "termationFunc c = terminate tpg"
    show "snd (snd (checkOutput ms c w line)) =
        (if checkUnexpected ms c line = None \<and>
            filter (\<lambda>e. \<not> ms e line) (expectedOutputs c) = [] \<and>
            terminateAfterExpectedOutput c
         then Suc w else w) \<and>
      hasCalledTerminationFunc (fst (snd (checkOutput ms c w line))) =
        (hasCalledTerminationFunc c \<or> snd (snd (checkOutput ms c w line)) = Suc w)"
    proof (cases "checkUnexpected ms c line = None \<and>
            filter (\<lambda>e. \<not> ms e line) (expectedOutputs c) = [] \<and>
            terminateAfterExpectedOutput c")
      case True
      then show ?thesis
        by (simp add: checkOutput_world checkOutput_hasCalled terminate_simps t)
    next
      case False
      then have "snd (snd (checkOutput ms c w line)) = w"
        by (simp only: checkOutput_world if_False)
      moreover have "hasCalledTerminationFunc (fst (snd (checkOutput ms c w line))) =
          hasCalledTerminationFunc c"
        using False by (simp only: checkOutput_hasCalled) simp
      ultimately show ?thesis using False by simp
    qed
  qed
  have run: "world (consume ms L s) = world s + length L \<and>
      (L \<noteq> [] \<longrightarrow> hasCalledTerminationFunc (checker (consume ms L s)))"
    if "termationFunc (checker s) = terminate (\<lambda>n. None)"
      and "terminateAfterExpectedOutput (checker s)"
      and "expectedOutputs (checker s) = []"
      and "\<forall>k. alive s k"
      and "\<forall>l \<in> snd ` set L. checkUnexpected ms (checker s) l = None"
    using that
  proof (induction L arbitrary: s)
    case Nil
    show ?case by simp
  next
    case (Cons x L)
    obtain k line where x: "x = (k, line)" by (cases x)
    let ?s = "deliver ms k line s"
    have here: "checkUnexpected ms (checker s) line = None"
      using Cons.prems(5) x by simp
    have w: "world ?s = Suc (world s)"
      using Cons.prems(1-4) here by (simp add: deliver_world checkOutput_world terminate_simps)
    have called: "hasCalledTerminationFunc (checker ?s)"
      using Cons.prems(1-4) here by (simp add: deliver_hasCalled)
    have "fst (checkOutput ms (checker s) (world s) line) = None"
      using Cons.prems(1-3) here
      by (simp add: checkOutput_failure terminate_simps requireNoError_def)
    then have al: "\<forall>k. alive ?s k"
      using Cons.prems(4) by (simp add: deliver_alive)
    have ex: "expectedOutputs (checker ?s) = []"
      using Cons.prems(3) by (simp add: deliver_expected)
    have cfg: "termationFunc (checker ?s) = terminate (\<lambda>n. None)"
      "terminateAfterExpectedOutput (checker ?s)"
      using Cons.prems(1,2) by (simp_all add: deliver_config)
    have later: "\<forall>l \<in> snd ` set L. checkUnexpected ms (checker ?s) l = None"
      using Cons.prems(5) by (simp add: deliver_checkUnexpected)
    have ih: "world (consume ms L ?s) = world ?s + length L"
      using Cons.IH [OF cfg ex al later] by blast
    have "hasCalledTerminationFunc (checker (consume ms L ?s))"
      using called consume_monotone [of ms L ?s] by blast
    then show ?case using ih w by (simp add: x)
  qed
  show ?thesis
  proof (rule conjI [OF call], intro impI, elim conjE)
    assume "termationFunc (checker s) = terminate (\<lambda>n. None)"
      and "terminateAfterExpectedOutput (checker s)"
      and "expectedOutputs (checker s) = []"
      and "\<forall>k. alive s k"
      and "\<forall>l \<in> snd ` set L. checkUnexpected ms (checker s) l = None"
    then show "world (consume ms L s) = world s + length L \<and>
      (L \<noteq> [] \<longrightarrow> hasCalledTerminationFunc (checker (consume ms L s)))"
      by (rule run)
  qed
qed

text \<open>
  The theorem after the line \<open>DONE\<close> has satisfied the one expected pattern, with one
  call made: two more lines make three calls.
\<close>

theorem termination_on_every_call_witness:
  "termationFunc (checker (consume matchLiteral [(Stdout, ''DONE'')]
      (started (options [''DONE''] None True False) (\<lambda>n. None :: string option))))
     = terminate (\<lambda>n. None)
   \<and> terminateAfterExpectedOutput (checker (consume matchLiteral [(Stdout, ''DONE'')]
      (started (options [''DONE''] None True False) (\<lambda>n. None :: string option))))
   \<and> expectedOutputs (checker (consume matchLiteral [(Stdout, ''DONE'')]
      (started (options [''DONE''] None True False) (\<lambda>n. None :: string option)))) = []
   \<and> world (consume matchLiteral [(Stdout, ''DONE'')]
      (started (options [''DONE''] None True False) (\<lambda>n. None :: string option))) = 1
   \<and> world (consume matchLiteral [(Stdout, ''a''), (Stderr, ''b'')]
      (consume matchLiteral [(Stdout, ''DONE'')]
        (started (options [''DONE''] None True False) (\<lambda>n. None :: string option)))) = 3"
proof -
  let ?s = "consume matchLiteral [(Stdout, ''DONE'')]
      (started (options [''DONE''] None True False) (\<lambda>n. None :: string option))"
  let ?L = "[(Stdout, ''a''), (Stderr, ''b'')]"
  have f: "termationFunc (checker ?s) = terminate (\<lambda>n. None)"
    by (simp add: run_simps)
  have t: "terminateAfterExpectedOutput (checker ?s)"
    by (simp add: run_simps)
  have e: "expectedOutputs (checker ?s) = []"
    by (simp add: run_simps)
  have a: "\<forall>k. alive ?s k"
    by (simp add: run_simps)
  have u: "\<forall>l \<in> snd ` set ?L. checkUnexpected matchLiteral (checker ?s) l = None"
    by (simp add: run_simps)
  have w: "world ?s = 1"
    by (simp add: run_simps)
  note r = termination_on_every_call [where s = ?s and L = ?L and ms = matchLiteral,
      THEN conjunct2, rule_format, OF conjI [OF f conjI [OF t conjI [OF e conjI [OF a u]]]]]
  have "world (consume matchLiteral ?L ?s) = world ?s + length ?L"
    by (rule r [THEN conjunct1])
  then have "world (consume matchLiteral ?L ?s) = 3"
    by (simp only: w) simp
  then show ?thesis
    by (rule conjI [OF f conjI [OF t conjI [OF e conjI [OF w]]]])
qed

text \<open>
  Claim C2 as it was stated fails: after the line \<open>DONE\<close> the flag
  \<open>hasCalledTerminationFunc\<close> is set and one call has been made, and the next line makes
  a second call.
\<close>

theorem termination_once_counterexample:
  "hasCalledTerminationFunc (checker (consume matchLiteral [(Stdout, ''DONE'')]
      (started (options [''DONE''] None True False) (\<lambda>n. None :: string option))))
   \<and> world (consume matchLiteral [(Stdout, ''DONE'')]
      (started (options [''DONE''] None True False) (\<lambda>n. None :: string option))) = 1
   \<and> world (consume matchLiteral [(Stdout, ''DONE''), (Stdout, ''more'')]
      (started (options [''DONE''] None True False) (\<lambda>n. None :: string option))) = 2"
  by (simp add: run_simps)

section \<open>Patterns that no line matches\<close>

lemma deliver_unmatched:
  assumes "p \<in> set (expectedOutputs (checker s))" and "\<not> ms p line"
  shows "p \<in> set (expectedOutputs (checker (deliver ms k line s)))"
    and "hasSeenExpectedOutputs (checker (deliver ms k line s)) = hasSeenExpectedOutputs (checker s)"
    and "hasCalledTerminationFunc (checker (deliver ms k line s)) = hasCalledTerminationFunc (checker s)"
proof -
  have "p \<in> set (filter (\<lambda>e. \<not> ms e line) (expectedOutputs (checker s)))"
    using assms by simp
  then have ne: "filter (\<lambda>e. \<not> ms e line) (expectedOutputs (checker s)) \<noteq> []"
    by (metis empty_iff empty_set)
  show "p \<in> set (expectedOutputs (checker (deliver ms k line s)))"
    using assms by (simp add: deliver_expected)
  show "hasSeenExpectedOutputs (checker (deliver ms k line s)) = hasSeenExpectedOutputs (checker s)"
    using ne by (simp add: deliver_hasSeen)
  show "hasCalledTerminationFunc (checker (deliver ms k line s)) = hasCalledTerminationFunc (checker s)"
    using ne by (simp add: deliver_hasCalled)
qed

lemma consume_unmatched:
  assumes "p \<in> set (expectedOutputs (checker s))" and "\<forall>l \<in> snd ` set L. \<not> ms p l"
  shows "p \<in> set (expectedOutputs (checker (consume ms L s))) \<and>
         hasSeenExpectedOutputs (checker (consume ms L s)) = hasSeenExpectedOutputs (checker s) \<and>
         hasCalledTerminationFunc (checker (consume ms L s)) = hasCalledTerminationFunc (checker s)"
  using assms
proof (induction L arbitrary: s)
  case Nil
  then show ?case by simp
next
  case (Cons x L)
  obtain k line where x: "x = (k, line)" by (cases x)
  have here: "\<not> ms p line" and later: "\<forall>l \<in> snd ` set L. \<not> ms p l"
    using Cons.prems(2) x by simp_all
  note d = deliver_unmatched [where ms = ms and k = k, OF Cons.prems(1) here]
  show ?case
    using Cons.IH [OF d(1) later] d(2,3) by (simp add: x)
qed

lemma scanning_unmatched:
  assumes "p \<in> set (ExpectedOutputs opts)" and "\<forall>l \<in> snd ` set (scanned proc). \<not> ms p l"
  shows "p \<in> set (expectedOutputs (checker (scanning ms opts proc)))"
    and "\<not> hasSeenExpectedOutputs (checker (scanning ms opts proc))"
    and "\<not> hasCalledTerminationFunc (checker (scanning ms opts proc))"
proof -
  have "p \<in> set (expectedOutputs (checker (started opts (terminateProcessGroup proc))))"
    using assms(1) by (simp add: started_fields newOutputChecker_fields)
  from consume_unmatched [where ms = ms, OF this assms(2)]
  show "p \<in> set (expectedOutputs (checker (scanning ms opts proc)))"
    and "\<not> hasSeenExpectedOutputs (checker (scanning ms opts proc))"
    and "\<not> hasCalledTerminationFunc (checker (scanning ms opts proc))"
    by (simp_all add: scanning_def started_fields newOutputChecker_fields)
qed

text \<open>What \<open>Run\<close> returns when the wait has returned and the termination function was not called.\<close>

lemma Run_waited:
  assumes "(startup proc :: ('p, 'e) failure option) = None"
    and "selected proc = WaitReturned waitErr"
    and "\<not> hasCalledTerminationFunc (checker (joined ms opts proc))"
  shows "Run ms isTerminatedExitErr opts proc =
           (case (if ExpectError opts then requireError waitErr else requireNoError waitErr) of
              Some f \<Rightarrow> failures (joined ms opts proc) @ [f :: ('p, 'e) failure]
            | None \<Rightarrow> finish (joined ms opts proc))"
  using assms by (simp add: Run_def Let_def)
text \<open>
  Claim C4, as amended. The wait has returned (the run was not cancelled) and some
  expected pattern matches no scanned line. Then \<open>Run\<close> fails: on the exit status, if
  the status is not what \<open>ExpectError\<close> asks for, since that assertion comes first and
  ends \<open>Run\<close>; and otherwise, as with exit status 0 and no error expected, on
  \<open>hasSeenExpectedOutputs\<close>, with the patterns still expected in the message, the
  unmatched pattern among them.
\<close>

theorem unmatched_pattern_fails:
  assumes "(startup proc :: ('p, 'e) failure option) = None"
    and "selected proc = WaitReturned waitErr"
    and "p \<in> set (ExpectedOutputs opts)"
    and "\<forall>l \<in> snd ` set (scanned proc). \<not> ms p l"
  shows "Run ms isTerminatedExitErr opts proc \<noteq> [] \<and>
         Run ms isTerminatedExitErr opts proc =
           (case (if ExpectError opts then requireError waitErr else requireNoError waitErr) of
              Some f \<Rightarrow> failures (joined ms opts proc) @ [f :: ('p, 'e) failure]
            | None \<Rightarrow> failures (joined ms opts proc) @
                        [DidNotSee (expectedOutputs (checker (joined ms opts proc)))]) \<and>
         p \<in> set (expectedOutputs (checker (joined ms opts proc)))"
proof -
  note u = scanning_unmatched [where ms = ms, OF assms(3,4)]
  have unseen: "\<not> hasSeenExpectedOutputs (checker (joined ms opts proc))"
    and uncalled: "\<not> hasCalledTerminationFunc (checker (joined ms opts proc))"
    and p: "p \<in> set (expectedOutputs (checker (joined ms opts proc)))"
    using u by (simp_all add: joined_checker)
  have eq: "Run ms isTerminatedExitErr opts proc =
           (case (if ExpectError opts then requireError waitErr else requireNoError waitErr) of
              Some f \<Rightarrow> failures (joined ms opts proc) @ [f :: ('p, 'e) failure]
            | None \<Rightarrow> failures (joined ms opts proc) @
                        [DidNotSee (expectedOutputs (checker (joined ms opts proc)))])"
    by (simp only: Run_waited [OF assms(1,2) uncalled] finish_unseen [OF unseen])
  have "Run ms isTerminatedExitErr opts proc \<noteq> []"
    by (simp only: eq) (simp split: option.splits)
  then show ?thesis using eq p by (intro conjI)
qed

text \<open>
  The theorem in a run that never prints \<open>FOUND\<close> and exits with status 0.
\<close>

theorem unmatched_pattern_fails_witness:
  "Run matchLiteral isTerminated (options [''FOUND''] None False False)
     (process [(Stdout, ''searching''), (Stderr, ''nothing'')] (WaitReturned None))
   = [DidNotSee [''FOUND'']]"
proof -
  let ?opts = "options [''FOUND''] None False False :: string RunOptions"
  let ?proc = "process [(Stdout, ''searching''), (Stderr, ''nothing'')] (WaitReturned None) :: string subprocess"
  have s: "(startup ?proc :: (string, string) failure option) = None"
    by (simp add: startup_def process_def requireNoError_def)
  have w: "selected ?proc = WaitReturned None"
    by (simp add: process_def)
  have p: "''FOUND'' \<in> set (ExpectedOutputs ?opts)"
    by (simp add: options_def)
  have n: "\<forall>l \<in> snd ` set (scanned ?proc). \<not> matchLiteral ''FOUND'' l"
    by (simp add: process_def)
  note r = unmatched_pattern_fails [where ms = matchLiteral and isTerminatedExitErr = isTerminated
      and p = "''FOUND''" and opts = ?opts and proc = ?proc, OF s w p n]
  have "Run matchLiteral isTerminated ?opts ?proc =
      failures (joined matchLiteral ?opts ?proc) @
        [DidNotSee (expectedOutputs (checker (joined matchLiteral ?opts ?proc)))]"
    using r [THEN conjunct2, THEN conjunct1]
    by (simp add: options_def requireNoError_def)
  also have "\<dots> = [DidNotSee [''FOUND'']]"
    by (simp add: joined_simps run_simps)
  finally show ?thesis .
qed

text \<open>
  Claim C4 as it was stated fails when the exit status is not the expected one: the
  run below never prints \<open>FOUND\<close> and exits with status 1, no error being expected;
  \<open>Run\<close> fails on the exit status, and the assertion on \<open>hasSeenExpectedOutputs\<close> is
  not reached.
\<close>

theorem unmatched_pattern_counterexample:
  "Run matchLiteral isTerminated (options [''FOUND''] None False False)
     (process [] (WaitReturned (Some ''exit status 1'')))
   = [NoErrorFailed ''exit status 1'']
   \<and> DidNotSee [''FOUND''] \<notin> set (Run matchLiteral isTerminated (options [''FOUND''] None False False)
     (process [] (WaitReturned (Some ''exit status 1''))))"
  by (simp add: Run_def startup_def joined_simps finish_def finalAssertion_def run_simps)

section \<open>Early termination\<close>

lemma newOutputChecker_ExpectError:
  "newOutputChecker (opts\<lparr>ExpectError := b\<rparr>) tpg = newOutputChecker opts tpg"
  by (simp add: newOutputChecker_def)

lemma joined_ExpectError:
  "joined ms (opts\<lparr>ExpectError := b\<rparr>) proc = joined ms opts proc"
  by (simp add: joined_def scanning_def started_def newOutputChecker_ExpectError)
text \<open>
  Claim C5. The wait has returned, both consumers have been joined, the checker has
  called its termination function and the error of the wait is that of a terminated
  process. Then \<open>Run\<close> returns without a further assertion: its failures are those that
  the consumers left, none in a run whose consumers did not fail, and \<open>ExpectError\<close>
  has no part in the result.
\<close>

theorem terminated_after_match_succeeds:
  assumes "(startup proc :: ('p, 'e) failure option) = None"
    and "selected proc = WaitReturned waitErr"
    and "hasCalledTerminationFunc (checker (joined ms opts proc))"
    and "isTerminatedExitErr waitErr"
  shows "Run ms isTerminatedExitErr opts proc = (failures (joined ms opts proc) :: ('p, 'e) failure list) \<and>
         Run ms isTerminatedExitErr (opts\<lparr>ExpectError := b\<rparr>) proc = Run ms isTerminatedExitErr opts proc \<and>
         (failures (joined ms opts proc) = [] \<longrightarrow> Run ms isTerminatedExitErr opts proc = [])"
proof -
  have r: "Run ms isTerminatedExitErr opts proc = failures (joined ms opts proc)"
    using assms by (simp add: Run_def Let_def)
  have "Run ms isTerminatedExitErr (opts\<lparr>ExpectError := b\<rparr>) proc = failures (joined ms opts proc)"
    using assms by (simp add: Run_def Let_def joined_ExpectError)
  then show ?thesis using r by simp
qed

text \<open>
  The theorem in a run that prints \<open>READY\<close> and \<open>DONE\<close> and is then terminated: it
  passes, whether an error is expected or not.
\<close>

theorem terminated_after_match_succeeds_witness:
  "hasCalledTerminationFunc (checker (joined matchLiteral (options [''READY'', ''DONE''] None True False)
      (process [(Stdout, ''READY''), (Stdout, ''DONE'')] (WaitReturned (Some ''signal: terminated'')))))
   \<and> isTerminated (Some ''signal: terminated'')
   \<and> Run matchLiteral isTerminated (options [''READY'', ''DONE''] None True False)
      (process [(Stdout, ''READY''), (Stdout, ''DONE'')] (WaitReturned (Some ''signal: terminated''))) = []
   \<and> Run matchLiteral isTerminated (options [''READY'', ''DONE''] None True True)
      (process [(Stdout, ''READY''), (Stdout, ''DONE'')] (WaitReturned (Some ''signal: terminated''))) = []"
proof -
  let ?opts = "options [''READY'', ''DONE''] None True False :: string RunOptions"
  let ?proc = "process [(Stdout, ''READY''), (Stdout, ''DONE'')]
      (WaitReturned (Some ''signal: terminated'')) :: string subprocess"
  have s: "(startup ?proc :: (string, string) failure option) = None"
    by (simp add: startup_def process_def requireNoError_def)
  have w: "selected ?proc = WaitReturned (Some ''signal: terminated'')"
    by (simp add: process_def)
  have c: "hasCalledTerminationFunc (checker (joined matchLiteral ?opts ?proc))"
    by (simp add: joined_simps run_simps)
  have t: "isTerminated (Some ''signal: terminated'')"
    by (simp add: isTerminated_def)
  have f: "failures (joined matchLiteral ?opts ?proc) = []"
    by (simp add: joined_simps run_simps)
  note r = terminated_after_match_succeeds [where ms = matchLiteral
      and isTerminatedExitErr = isTerminated and opts = ?opts and proc = ?proc and b = True,
      OF s w c t]
  have one: "Run matchLiteral isTerminated ?opts ?proc = []"
    using r [THEN conjunct1] f by simp
  have o: "?opts\<lparr>ExpectError := True\<rparr> = options [''READY'', ''DONE''] None True True"
    by (simp add: options_def)
  have two: "Run matchLiteral isTerminated (options [''READY'', ''DONE''] None True True) ?proc = []"
    using r [THEN conjunct2, THEN conjunct1] one by (simp only: o)
  show ?thesis
    by (rule conjI [OF c conjI [OF t conjI [OF one two]]])
qed

section \<open>A run without output\<close>

lemma deliver_called_seen:
  "hasCalledTerminationFunc (checker s) \<longrightarrow> hasSeenExpectedOutputs (checker s) \<Longrightarrow>
   hasCalledTerminationFunc (checker (deliver ms k line s)) \<longrightarrow>
   hasSeenExpectedOutputs (checker (deliver ms k line s))"
  by (auto simp add: deliver_hasCalled deliver_hasSeen)

lemma consume_called_seen:
  "hasCalledTerminationFunc (checker s) \<longrightarrow> hasSeenExpectedOutputs (checker s) \<Longrightarrow>
   hasCalledTerminationFunc (checker (consume ms L s)) \<longrightarrow>
   hasSeenExpectedOutputs (checker (consume ms L s))"
proof (induction L arbitrary: s)
  case Nil
  then show ?case by simp
next
  case (Cons x L)
  obtain k line where x: "x = (k, line)" by (cases x)
  show ?case
    using Cons.IH [OF deliver_called_seen [OF Cons.prems, of ms k line]] by (simp add: x)
qed

lemma scanning_called_seen:
  "hasCalledTerminationFunc (checker (scanning ms opts proc)) \<longrightarrow>
   hasSeenExpectedOutputs (checker (scanning ms opts proc))"
  unfolding scanning_def
  by (rule consume_called_seen) (simp add: started_fields newOutputChecker_fields)

lemma Run_unseen:
  assumes "\<not> hasSeenExpectedOutputs (checker (scanning ms opts proc))"
  shows "Run ms isTerminatedExitErr opts proc \<noteq> []"
proof (cases "startup proc :: ('a, 'b) failure option")
  case (Some f)
  then show ?thesis by (simp add: Run_def)
next
  case None
  have uncalled: "\<not> hasCalledTerminationFunc (checker (joined ms opts proc))"
    using assms scanning_called_seen [of ms opts proc] by (simp add: joined_checker)
  have unseen: "\<not> hasSeenExpectedOutputs (checker (joined ms opts proc))"
    using assms by (simp add: joined_checker)
  show ?thesis
  proof (cases "selected proc")
    case (WaitReturned waitErr)
    show ?thesis
      by (simp only: Run_waited [OF None WaitReturned uncalled] finish_unseen [OF unseen])
         (simp split: option.splits)
  next
    case (ContextDone ctxErr)
    then show ?thesis
      using None by (simp add: Run_def Let_def finish_unseen [OF assms] split: option.splits)
  qed
qed

lemma scanning_nothing:
  "scanned proc = [] \<Longrightarrow> scanning ms opts proc = started opts (terminateProcessGroup proc)"
  by (simp add: scanning_def)
text \<open>
  Claim C10. \<open>hasSeenExpectedOutputs\<close> is false in the checker that \<open>Run\<close> builds and
  only a call of \<open>checkOutput\<close> sets it: if it is set, a line was scanned. A run that
  expects no pattern and scans no line therefore ends with the flag unset, the last
  assertion of \<open>Run\<close> fails on that state, and \<open>Run\<close> does not pass; when the wait has
  returned with the exit status that \<open>ExpectError\<close> asks for, the failure of \<open>Run\<close> is
  that of the last assertion.
\<close>

theorem seen_needs_a_line:
  "(hasSeenExpectedOutputs (checker (scanning ms opts proc)) \<longrightarrow> scanned proc \<noteq> []) \<and>
   (hasSeenExpectedOutputs (checker (joined ms opts proc)) \<longrightarrow> scanned proc \<noteq> []) \<and>
   (ExpectedOutputs opts = [] \<and> scanned proc = [] \<longrightarrow>
      \<not> hasSeenExpectedOutputs (checker (joined ms opts proc)) \<and>
      finalAssertion (checker (joined ms opts proc)) = Some (DidNotSee []) \<and>
      Run ms isTerminatedExitErr opts proc \<noteq> [] \<and>
      ((startup proc :: ('p, 'e) failure option) = None \<and>
       selected proc = WaitReturned waitErr \<and>
       (if ExpectError opts then requireError waitErr else requireNoError waitErr)
         = (None :: ('p, 'e) failure option) \<longrightarrow>
       Run ms isTerminatedExitErr opts proc =
         failures (joined ms opts proc) @ [DidNotSee [] :: ('p, 'e) failure]))"
proof -
  have unseen: "\<not> hasSeenExpectedOutputs (checker (scanning ms opts proc))"
    if "scanned proc = []"
    using that by (simp add: scanning_nothing started_fields newOutputChecker_fields)
  have first: "hasSeenExpectedOutputs (checker (scanning ms opts proc)) \<longrightarrow> scanned proc \<noteq> []"
    using unseen by blast
  have second: "hasSeenExpectedOutputs (checker (joined ms opts proc)) \<longrightarrow> scanned proc \<noteq> []"
    using unseen by (auto simp add: joined_checker)
  have third: "\<not> hasSeenExpectedOutputs (checker (joined ms opts proc)) \<and>
      finalAssertion (checker (joined ms opts proc)) = Some (DidNotSee []) \<and>
      Run ms isTerminatedExitErr opts proc \<noteq> [] \<and>
      ((startup proc :: ('p, 'e) failure option) = None \<and>
       selected proc = WaitReturned waitErr \<and>
       (if ExpectError opts then requireError waitErr else requireNoError waitErr)
         = (None :: ('p, 'e) failure option) \<longrightarrow>
       Run ms isTerminatedExitErr opts proc =
         failures (joined ms opts proc) @ [DidNotSee [] :: ('p, 'e) failure])"
    if none: "ExpectedOutputs opts = []" and quiet: "scanned proc = []"
  proof -
    have u: "\<not> hasSeenExpectedOutputs (checker (scanning ms opts proc))"
      by (rule unseen [OF quiet])
    have uj: "\<not> hasSeenExpectedOutputs (checker (joined ms opts proc))"
      using u by (simp add: joined_checker)
    have ex: "expectedOutputs (checker (joined ms opts proc)) = []"
      using none quiet
      by (simp add: joined_checker scanning_nothing started_fields newOutputChecker_fields)
    have fa: "finalAssertion (checker (joined ms opts proc)) = Some (DidNotSee [])"
      using uj ex by (simp add: finalAssertion_def requireTrue_def)
    have ne: "Run ms isTerminatedExitErr opts proc \<noteq> []"
      by (rule Run_unseen [OF u])
    have uncalled: "\<not> hasCalledTerminationFunc (checker (joined ms opts proc))"
      using u scanning_called_seen [of ms opts proc] by (simp add: joined_checker)
    have eq: "Run ms isTerminatedExitErr opts proc =
         failures (joined ms opts proc) @ [DidNotSee [] :: ('p, 'e) failure]"
      if "(startup proc :: ('p, 'e) failure option) = None"
        and "selected proc = WaitReturned waitErr"
        and "(if ExpectError opts then requireError waitErr else requireNoError waitErr)
              = (None :: ('p, 'e) failure option)"
      using that(3)
      by (simp only: Run_waited [OF that(1,2) uncalled] finish_unseen [OF uj] ex) simp
    show ?thesis using uj fa ne eq by blast
  qed
  show ?thesis using first second third by blast
qed

text \<open>
  The theorem in a run that expects nothing, prints nothing and exits with status 0.
\<close>

theorem seen_needs_a_line_witness:
  "\<not> hasSeenExpectedOutputs (checker (joined matchLiteral (options [] None False False)
        (process [] (WaitReturned (None :: string option)))))
   \<and> finalAssertion (checker (joined matchLiteral (options [] None False False)
        (process [] (WaitReturned (None :: string option)))))
      = Some (DidNotSee [] :: (string, string) failure)
   \<and> Run matchLiteral isTerminated (options [] None False False) (process [] (WaitReturned None))
      = [DidNotSee []]"
proof -
  let ?opts = "options [] None False False :: string RunOptions"
  let ?proc = "process [] (WaitReturned None) :: string subprocess"
  have none: "ExpectedOutputs ?opts = [] \<and> scanned ?proc = []"
    by (simp add: options_def process_def)
  have ok: "(startup ?proc :: (string, string) failure option) = None \<and>
       selected ?proc = WaitReturned None \<and>
       (if ExpectError ?opts then requireError None else requireNoError None)
         = (None :: (string, string) failure option)"
    by (simp add: startup_def options_def process_def requireNoError_def)
  note r = seen_needs_a_line [where ms = matchLiteral and opts = ?opts and proc = ?proc
      and isTerminatedExitErr = isTerminated and waitErr = None,
      THEN conjunct2, THEN conjunct2, rule_format, OF none]
  have unseen: "\<not> hasSeenExpectedOutputs (checker (joined matchLiteral ?opts ?proc))"
    by (rule r [THEN conjunct1])
  have fa: "finalAssertion (checker (joined matchLiteral ?opts ?proc))
      = Some (DidNotSee [] :: (string, string) failure)"
    by (rule r [THEN conjunct2, THEN conjunct1])
  have "Run matchLiteral isTerminated ?opts ?proc
      = failures (joined matchLiteral ?opts ?proc) @ [DidNotSee []]"
    by (rule r [THEN conjunct2, THEN conjunct2, THEN conjunct2, rule_format, OF ok])
  also have "\<dots> = [DidNotSee []]"
    by (simp add: joined_simps run_simps)
  finally show ?thesis using unseen fa by (intro conjI)
qed

section \<open>The build adapter\<close>

text \<open>
  A project whose plugin prints the three marker lines: \<open>Build\<close> splits the classpath
  and takes the build directory from them.
\<close>

lemma Build_round_trip:
  "snd (Build (gradleEnv (''/project/gradlew'', None) (gradleProject ''cifuzz.test.classpath=/a:/b''))
          (builder ''/project'') ''com.example.FuzzTest'')
   = Ok \<lparr>Name = ''com.example.FuzzTest'', BuildDir = ''/out'', ResultProjectDir = ''/project'',
         GeneratedCorpus = ''/project/.cifuzz-corpus/com.example.FuzzTest'',
         SeedCorpus = ''/project/src/test/resources/com.example.FuzzTest'',
         RuntimeDeps = [''/a'', ''/b'']\<rparr>"
  by (simp add: gradle_simps)

text \<open>What the queries leave in the trace.\<close>

lemma GetGradleCommand_events:
  "set (fst (GetGradleCommand env projectDir)) \<subseteq>
     {SearchFileBackwards projectDir (if windows env then ''gradlew.bat'' else ''gradlew''), GradlePath}"
  by (simp add: GetGradleCommand_def FindGradleWrapper_def Let_def
      split: prod.splits option.splits sum.splits)

lemma buildGradleCommand_events:
  "fst (buildGradleCommand env projectDir args) = fst (GetGradleCommand env projectDir)"
  by (simp add: buildGradleCommand_def split: prod.splits sum.splits)

lemma buildGradleCommand_args:
  "buildGradleCommand env projectDir args = (ev, Inr c) \<Longrightarrow> cmdArgs c = args"
  by (auto simp add: buildGradleCommand_def split: prod.splits sum.splits)

lemma buildGradleCommand_runs_nothing:
  "Output c \<notin> set (fst (buildGradleCommand env projectDir args))"
  using GetGradleCommand_events [of env projectDir]
  by (auto simp add: buildGradleCommand_events)

lemma GradlePluginVersion_runs:
  assumes "Output c \<in> set (fst (GradlePluginVersion env b))"
  shows "cmdArgs c = [''cifuzzPrintPluginVersion'', ''-q'']"
proof (cases "buildGradleCommand env (ProjectDir b) [''cifuzzPrintPluginVersion'', ''-q'']")
  case (Pair ev r)
  have no: "Output c \<notin> set ev"
    using buildGradleCommand_runs_nothing [of c env "ProjectDir b" "[''cifuzzPrintPluginVersion'', ''-q'']"]
    by (simp add: Pair)
  show ?thesis
  proof (cases r)
    case (Inl e)
    then show ?thesis using assms no by (simp add: GradlePluginVersion_def Pair)
  next
    case (Inr c')
    then have "c = c'"
      using assms no by (simp add: GradlePluginVersion_def Pair split: sum.splits)
    then show ?thesis
      using buildGradleCommand_args [of env "ProjectDir b" _ ev c'] Pair Inr by simp
  qed
qed
text \<open>
Every query looks for the Gradle wrapper exactly once.
\<close>

lemma GetGradleCommand_searches_once:
  "count_list (fst (GetGradleCommand env projectDir))
     (SearchFileBackwards projectDir (if windows env then ''gradlew.bat'' else ''gradlew'')) = 1"
  by (simp add: GetGradleCommand_def FindGradleWrapper_def Let_def
      split: prod.splits option.splits sum.splits)

lemma query_searches_once:
  "count_list (fst (GradlePluginVersion env b))
     (SearchFileBackwards (ProjectDir b) (if windows env then ''gradlew.bat'' else ''gradlew'')) = 1"
  "count_list (fst (getDependencies env b))
     (SearchFileBackwards (ProjectDir b) (if windows env then ''gradlew.bat'' else ''gradlew'')) = 1"
  "count_list (fst (GetBuildDirectory env projectDir))
     (SearchFileBackwards projectDir (if windows env then ''gradlew.bat'' else ''gradlew'')) = 1"
proof -
  define w where "w = (if windows env then ''gradlew.bat'' else ''gradlew'')"
  have once: "count_list (fst (GetGradleCommand env d)) (SearchFileBackwards d w) = 1" for d
    unfolding w_def by (rule GetGradleCommand_searches_once)
  have tail: "count_list [DebugCommand c, Output c] (SearchFileBackwards d w) = 0" for c d
    by simp
  obtain ev r where g: "GetGradleCommand env (ProjectDir b) = (ev, r)"
    by (cases "GetGradleCommand env (ProjectDir b)")
  have ev: "count_list ev (SearchFileBackwards (ProjectDir b) w) = 1"
    using once [of "ProjectDir b"] by (simp add: g)
  have "count_list (fst (GradlePluginVersion env b)) (SearchFileBackwards (ProjectDir b) w) = 1"
    using ev
    by (cases r) (simp_all add: GradlePluginVersion_def buildGradleCommand_def g split: sum.splits)
  then show "count_list (fst (GradlePluginVersion env b))
     (SearchFileBackwards (ProjectDir b) (if windows env then ''gradlew.bat'' else ''gradlew'')) = 1"
    unfolding w_def .
  have "count_list (fst (getDependencies env b)) (SearchFileBackwards (ProjectDir b) w) = 1"
    using ev
    by (cases r)
       (simp_all add: getDependencies_def buildGradleCommand_def g Let_def split: sum.splits)
  then show "count_list (fst (getDependencies env b))
     (SearchFileBackwards (ProjectDir b) (if windows env then ''gradlew.bat'' else ''gradlew'')) = 1"
    unfolding w_def .
  obtain ev' r' where g': "GetGradleCommand env projectDir = (ev', r')"
    by (cases "GetGradleCommand env projectDir")
  have ev': "count_list ev' (SearchFileBackwards projectDir w) = 1"
    using once [of projectDir] by (simp add: g')
  have "count_list (fst (GetBuildDirectory env projectDir)) (SearchFileBackwards projectDir w) = 1"
    using ev'
    by (cases r')
       (simp_all add: GetBuildDirectory_def buildGradleCommand_def g' Let_def split: sum.splits)
  then show "count_list (fst (GetBuildDirectory env projectDir))
     (SearchFileBackwards projectDir (if windows env then ''gradlew.bat'' else ''gradlew'')) = 1"
    unfolding w_def .
qed
text \<open>
  Claim C6. If the query for the plugin version fails, \<open>Build\<close> warns, prints the
  instructions for the build language and returns the error of the query wrapped as a
  silent error. Nothing else happens: the trace of \<open>Build\<close> is the trace of that query
  and the two messages, the only command it runs is the version query, and it looks
  for the Gradle wrapper once, where each of \<open>getDependencies\<close> and \<open>GetBuildDirectory\<close>
  would look for it once more.
\<close>

theorem missing_plugin_stops_build:
  assumes "determineGradleBuildLanguage env (ProjectDir b) = Inr language"
    and "GradlePluginVersion env b = (ev, Inl e)"
  shows "Build env b targetClass =
           (ev @ [Warn ''No cifuzz gradle plugin found'', Print (instructions env language)],
            Err (wrapSilentError env e)) \<and>
         (\<forall>c. Output c \<in> set (fst (Build env b targetClass)) \<longrightarrow>
              cmdArgs c = [''cifuzzPrintPluginVersion'', ''-q'']) \<and>
         count_list (fst (Build env b targetClass))
           (SearchFileBackwards (ProjectDir b) (if windows env then ''gradlew.bat'' else ''gradlew'')) = 1"
proof -
  have eq: "Build env b targetClass =
           (ev @ [Warn ''No cifuzz gradle plugin found'', Print (instructions env language)],
            Err (wrapSilentError env e))"
    using assms by (simp add: Build_def)
  have runs: "cmdArgs c = [''cifuzzPrintPluginVersion'', ''-q'']"
    if "Output c \<in> set (fst (Build env b targetClass))" for c
  proof -
    have "Output c \<in> set ev" using that by (simp add: eq)
    then have "Output c \<in> set (fst (GradlePluginVersion env b))" by (simp add: assms(2))
    then show ?thesis by (rule GradlePluginVersion_runs)
  qed
  have "count_list ev
      (SearchFileBackwards (ProjectDir b) (if windows env then ''gradlew.bat'' else ''gradlew'')) = 1"
    using query_searches_once(1) [of env b] by (simp add: assms(2))
  then have once: "count_list (fst (Build env b targetClass))
      (SearchFileBackwards (ProjectDir b) (if windows env then ''gradlew.bat'' else ''gradlew'')) = 1"
    by (simp add: eq)
  show ?thesis using eq runs once by blast
qed

text \<open>
  The theorem in a project whose build does not know the task of the plugin.
\<close>

theorem missing_plugin_stops_build_witness:
  "Build (gradleEnv (''/project/gradlew'', None) noPlugin) (builder ''/project'') ''com.example.FuzzTest'' =
     ([SearchFileBackwards ''/project'' ''gradlew'',
       DebugCommand \<lparr>cmdPath = ''/project/gradlew'', cmdArgs = [''cifuzzPrintPluginVersion'', ''-q''],
                     cmdDir = ''/project''\<rparr>,
       Output \<lparr>cmdPath = ''/project/gradlew'', cmdArgs = [''cifuzzPrintPluginVersion'', ''-q''],
               cmdDir = ''/project''\<rparr>,
       Warn ''No cifuzz gradle plugin found'',
       Print ''add the cifuzz plugin to build.gradle''],
      Err (External (SilentError (WithStack (External (Message ''exit status 1''))))))"
proof -
  let ?env = "gradleEnv (''/project/gradlew'', None) noPlugin"
  let ?ev = "[SearchFileBackwards ''/project'' ''gradlew'',
       DebugCommand \<lparr>cmdPath = ''/project/gradlew'', cmdArgs = [''cifuzzPrintPluginVersion'', ''-q''],
                     cmdDir = ''/project''\<rparr>,
       Output \<lparr>cmdPath = ''/project/gradlew'', cmdArgs = [''cifuzzPrintPluginVersion'', ''-q''],
               cmdDir = ''/project''\<rparr>]"
  have l: "determineGradleBuildLanguage ?env (ProjectDir (builder ''/project'')) = Inr ''groovy''"
    by (simp add: gradleEnv_def)
  have v: "GradlePluginVersion ?env (builder ''/project'') =
      (?ev, Inl (WithStack (External (Message ''exit status 1''))))"
    by (simp add: gradleEnv_def noPlugin_def builder_def GradlePluginVersion_def
        buildGradleCommand_def GetGradleCommand_def FindGradleWrapper_def)
  show ?thesis
    using missing_plugin_stops_build [where env = ?env and b = "builder ''/project''"
        and targetClass = "''com.example.FuzzTest''", OF l v, THEN conjunct1]
    by (simp add: gradleEnv_def)
qed

text \<open>
  Without a marker line in the text that the classpath query prints,
  \<open>FindStringSubmatch\<close> returns \<open>nil\<close> and \<open>classpath[1]\<close> panics.
\<close>

lemma getDependencies_no_marker:
  assumes "buildGradleCommand env (ProjectDir b) [''cifuzzPrintTestClasspath'', ''-q''] = (ev, Inr c)"
    and "cmdOutput env c = Inr out"
    and "FindStringSubmatch classpathRegex out = None"
  shows "getDependencies env b = (ev @ [DebugCommand c, Output c], Panic (IndexOutOfRange 1 0))"
  using assms by (simp add: getDependencies_def index_def)

text \<open>
  Claim C3 does not hold of the code. The classpath query of the project below prints
  \<open>BUILD SUCCESSFUL\<close> and no marker line: \<open>getDependencies\<close> panics with an index out
  of range, and so does \<open>Build\<close>, where the claim has an error returned. On the same
  text \<open>GetBuildDirectory\<close>, which tests the match for \<open>nil\<close>, returns an error.
\<close>

theorem getDependencies_panics:
  "FindStringSubmatch classpathRegex ''BUILD SUCCESSFUL'' = None
   \<and> snd (getDependencies (gradleEnv (''/project/gradlew'', None) (gradleProject ''BUILD SUCCESSFUL''))
        (builder ''/project'')) = Panic (IndexOutOfRange 1 0)
   \<and> snd (Build (gradleEnv (''/project/gradlew'', None) (gradleProject ''BUILD SUCCESSFUL''))
        (builder ''/project'') ''com.example.FuzzTest'') = Panic (IndexOutOfRange 1 0)
   \<and> snd (GetBuildDirectory (gradleEnv (''/project/gradlew'', None) (\<lambda>c. Inr ''BUILD SUCCESSFUL''))
        ''/project'') = Err (New ''Unable to parse gradle build directory from init script.'')"
  by (simp add: gradle_simps)

text \<open>
  Claim C9. If \<open>buildGradleCommand\<close> returns an error to \<open>GetBuildDirectory\<close>, then
  \<open>GetBuildDirectory\<close> returns the empty path and no error.
\<close>

theorem GetBuildDirectory_swallows_error:
  assumes "buildGradleCommand env projectDir [''cifuzzPrintBuildDir'', ''-q''] = (ev, Inl e)"
  shows "GetBuildDirectory env projectDir = (ev, Ok '''')"
  using assms by (simp add: GetBuildDirectory_def)

text \<open>
  The theorem in a project in which the search for the wrapper is denied.
\<close>

theorem GetBuildDirectory_swallows_error_witness:
  "buildGradleCommand (gradleEnv ('''', Some (External (Message ''permission denied''))) noPlugin)
      ''/project'' [''cifuzzPrintBuildDir'', ''-q'']
     = ([SearchFileBackwards ''/project'' ''gradlew''], Inl (External (Message ''permission denied'')))
   \<and> GetBuildDirectory (gradleEnv ('''', Some (External (Message ''permission denied''))) noPlugin)
        ''/project''
     = ([SearchFileBackwards ''/project'' ''gradlew''], Ok '''')"
proof -
  let ?env = "gradleEnv ('''', Some (External (Message ''permission denied''))) noPlugin"
  have f: "buildGradleCommand ?env ''/project'' [''cifuzzPrintBuildDir'', ''-q'']
     = ([SearchFileBackwards ''/project'' ''gradlew''], Inl (External (Message ''permission denied'')))"
    by (simp add: gradleEnv_def buildGradleCommand_def GetGradleCommand_def FindGradleWrapper_def)
  show ?thesis
    using f GetBuildDirectory_swallows_error [OF f] by (intro conjI)
qed

end
